theory Spec2Isabelle
  imports Complex_Main "HOL-Library.AList" "HOL-Library.Char_ord" "HOL-Library.List_Lexorder"
    "HOL-Library.Product_Lexorder"
begin

text \<open>
  A shallow embedding of the location server: \<^verbatim>\<open>LocationServer\<close>, the dispatcher with its
  validator, rate limiter, presence maps and broadcast, and \<^verbatim>\<open>RedisService\<close>, the history
  of locations kept in sorted sets of a Redis store. A handler of the source becomes a
  function from the state of the server before a message to the state after it; the
  messages sent are collected per connection.
\<close>

section \<open>JavaScript values\<close>

text \<open>
  The server handles decoded JSON messages. A JavaScript number is a finite value, one of
  the two infinities, or NaN; finite doubles compare as the reals they denote, and every
  comparison with NaN is false. A string is a list of characters, one per code unit, so
  that \<open>length\<close> is the \<^verbatim>\<open>.length\<close> of the source. An object is the list of its
  own properties in insertion order.
\<close>

datatype jsnum = Fin real | NaN | PosInf | NegInf

datatype jsval =
    JUndefined
  | JNull
  | JBool bool
  | JNum jsnum
  | JStr string
  | JArr "jsval list"
  | JObj "(string \<times> jsval) list"

text \<open>The operator \<^verbatim>\<open><\<close> on two numbers (\<^verbatim>\<open>a > b\<close> is \<open>js_less b a\<close>).\<close>

fun js_less :: "jsnum \<Rightarrow> jsnum \<Rightarrow> bool" where
  "js_less (Fin a) (Fin b) = (a < b)"
| "js_less (Fin a) PosInf = True"
| "js_less NegInf (Fin b) = True"
| "js_less NegInf PosInf = True"
| "js_less _ _ = False"

text \<open>Truthiness, as \<^verbatim>\<open>if (v)\<close>, \<^verbatim>\<open>!v\<close> and \<^verbatim>\<open>v || w\<close> read it.\<close>

fun truthy :: "jsval \<Rightarrow> bool" where
  "truthy JUndefined = False"
| "truthy JNull = False"
| "truthy (JBool b) = b"
| "truthy (JNum (Fin r)) = (r \<noteq> 0)"
| "truthy (JNum NaN) = False"
| "truthy (JNum PosInf) = True"
| "truthy (JNum NegInf) = True"
| "truthy (JStr s) = (s \<noteq> [])"
| "truthy (JArr xs) = True"
| "truthy (JObj kvs) = True"

fun typeof :: "jsval \<Rightarrow> string" where
  "typeof JUndefined = ''undefined''"
| "typeof JNull = ''object''"
| "typeof (JBool b) = ''boolean''"
| "typeof (JNum n) = ''number''"
| "typeof (JStr s) = ''string''"
| "typeof (JArr xs) = ''object''"
| "typeof (JObj kvs) = ''object''"

text \<open>
  Reading a property \<^verbatim>\<open>v.k\<close> for the property names the server reads (name, latitude,
  longitude, lastUpdate, username, startTime, endTime, type, data): an object yields its
  own property or \<^verbatim>\<open>undefined\<close>; so does any other value except \<^verbatim>\<open>null\<close> and
  \<^verbatim>\<open>undefined\<close>, on which the read throws (the callers guard against both).
\<close>

fun get_field :: "jsval \<Rightarrow> string \<Rightarrow> jsval" where
  "get_field (JObj kvs) k = (case map_of kvs k of Some v \<Rightarrow> v | None \<Rightarrow> JUndefined)"
| "get_field _ k = JUndefined"

text \<open>Object spread \<^verbatim>\<open>{...a, ...b}\<close>: the properties of b overwrite or extend those of a.\<close>

definition obj_spread :: "(string \<times> jsval) list \<Rightarrow> (string \<times> jsval) list \<Rightarrow> (string \<times> jsval) list" where
  "obj_spread a b = foldl (\<lambda>acc kv. AList.update (fst kv) (snd kv) acc) a b"

fun obj_props :: "jsval \<Rightarrow> (string \<times> jsval) list" where
  "obj_props (JObj kvs) = kvs"
| "obj_props _ = []"

text \<open>
  What \<^verbatim>\<open>JSON.parse(JSON.stringify(v))\<close> yields for a property value: a number that is
  not finite is written as \<^verbatim>\<open>null\<close>, and so is \<^verbatim>\<open>undefined\<close> in an array; a property
  whose value is \<^verbatim>\<open>undefined\<close> is left out of an object.
\<close>

primrec json_value :: "jsval \<Rightarrow> jsval" where
  "json_value JUndefined = JUndefined"
| "json_value JNull = JNull"
| "json_value (JBool b) = JBool b"
| "json_value (JNum n) = (case n of Fin r \<Rightarrow> JNum (Fin r) | _ \<Rightarrow> JNull)"
| "json_value (JStr s) = JStr s"
| "json_value (JArr xs) =
     JArr (map (\<lambda>v. if v = JUndefined then JNull else v) (map json_value xs))"
| "json_value (JObj kvs) =
     JObj (filter (\<lambda>kv. snd kv \<noteq> JUndefined) (map (map_prod id json_value) kvs))"

section \<open>Built-in functions and configuration\<close>

text \<open>
  Five built-ins of the language are parameters of the model: \<open>dateGetTime v\<close> is
  \<^verbatim>\<open>new Date(v).getTime()\<close> in milliseconds, \<open>None\<close> when it is NaN (an invalid date);
  \<open>toISOString t\<close> is \<^verbatim>\<open>new Date(t).toISOString()\<close>; \<open>stringOf v\<close> is the text that a
  template literal or \<^verbatim>\<open>toString()\<close> writes for a value that is not a string;
  \<open>jsonText v\<close> is the bytes of \<^verbatim>\<open>JSON.stringify(v)\<close>; \<open>nearestDouble x\<close> is the double
  that \<^verbatim>\<open>JSON.parse\<close> reads for a number literal of the value \<open>x\<close>, \<open>None\<close> when the
  literal is beyond the range of the doubles. The clock \<^verbatim>\<open>Date.now()\<close> is the
  argument \<open>now\<close> of every handler: one reading per message, in milliseconds.
\<close>

record builtins =
  dateGetTime :: "jsval \<Rightarrow> int option"
  toISOString :: "int \<Rightarrow> string"
  stringOf :: "jsval \<Rightarrow> string"
  jsonText :: "jsval \<Rightarrow> string"
  nearestDouble :: "real \<Rightarrow> real option"

definition template_text :: "builtins \<Rightarrow> jsval \<Rightarrow> string" where
  "template_text B v = (case v of JStr s \<Rightarrow> s | _ \<Rightarrow> stringOf B v)"

subsection \<open>Frames\<close>



text \<open>\<^verbatim>\<open>this.config\<close> of LocationServer.\<close>

definition maxUsers :: nat where
  "maxUsers = 100"

definition locationUpdateInterval :: int where
  "locationUpdateInterval = 2000"

definition userTimeout :: int where
  "userTimeout = 30000"

definition maxNameLength :: nat where
  "maxNameLength = 50"

text \<open>\<^verbatim>\<open>this.config\<close> of RedisService.\<close>

definition maxLocationEntries :: nat where
  "maxLocationEntries = 100"

definition locationTTL :: int where
  "locationTTL = 7 * 24 * 60 * 60"

definition userTTL :: int where
  "userTTL = 30 * 24 * 60 * 60"

definition keyPrefix :: string where
  "keyPrefix = ''location_share:''"

section \<open>Validator\<close>

datatype validation = Valid | Invalid string

text \<open>
  \<^verbatim>\<open>validateLocationData(data)\<close>. Each \<^verbatim>\<open>||\<close> of the source is a chain of tests, the
  first that holds deciding. The comparisons on latitude and longitude are reached only
  for a value whose \<^verbatim>\<open>typeof\<close> is number.
\<close>

definition latitude_rejected :: "jsval \<Rightarrow> bool" where
  "latitude_rejected v =
     (case v of
        JNum n \<Rightarrow> (if js_less n (Fin (- 90)) then True else js_less (Fin 90) n)
      | _ \<Rightarrow> True)"

definition longitude_rejected :: "jsval \<Rightarrow> bool" where
  "longitude_rejected v =
     (case v of
        JNum n \<Rightarrow> (if js_less n (Fin (- 180)) then True else js_less (Fin 180) n)
      | _ \<Rightarrow> True)"

definition lastUpdate_stale :: "builtins \<Rightarrow> int \<Rightarrow> jsval \<Rightarrow> bool" where
  "lastUpdate_stale B now v =
     (if truthy v
      then (case dateGetTime B v of
              Some updateTime \<Rightarrow> now - updateTime > userTimeout
            | None \<Rightarrow> False)
      else False)"

text \<open>\<^verbatim>\<open>data.name.length\<close>, read only where \<^verbatim>\<open>typeof data.name\<close> is string.\<close>

fun js_length :: "jsval \<Rightarrow> nat" where
  "js_length (JStr s) = length s"
| "js_length _ = 0"

definition validateLocationData :: "builtins \<Rightarrow> int \<Rightarrow> jsval \<Rightarrow> validation" where
  "validateLocationData B now d =
     (if \<not> truthy (get_field d ''name'') then Invalid ''INVALID_NAME''
      else if typeof (get_field d ''name'') \<noteq> ''string'' then Invalid ''INVALID_NAME''
      else if js_length (get_field d ''name'') = 0 then Invalid ''INVALID_NAME''
      else if js_length (get_field d ''name'') > maxNameLength then Invalid ''INVALID_NAME''
      else if latitude_rejected (get_field d ''latitude'') then Invalid ''INVALID_LOCATION''
      else if longitude_rejected (get_field d ''longitude'') then Invalid ''INVALID_LOCATION''
      else if lastUpdate_stale B now (get_field d ''lastUpdate'') then Invalid ''STALE_LOCATION''
      else Valid)"

section \<open>The store: sorted sets and hashes behind the Redis client\<close>

text \<open>
  A sorted set is the list of its (member, score) pairs, each member once, in the order
  of Redis: by score, and members of one score by the bytes of their text. A member is
  the JSON text the service wrote, kept as the value that text denotes (two texts that
  \<^verbatim>\<open>JSON.stringify\<close> has written are the same exactly when they denote the same
  value); \<open>zkey\<close> is what the pairs are ordered by. Scores are the millisecond readings
  of the clock.
\<close>

type_synonym zset = "(jsval \<times> int) list"

definition zkey :: "builtins \<Rightarrow> jsval \<times> int \<Rightarrow> int \<times> string" where
  "zkey B e = (snd e, jsonText B (fst e))"

text \<open>\<^verbatim>\<open>ZADD key score member\<close>: a member already present moves to its new score.\<close>

definition zAdd :: "builtins \<Rightarrow> zset \<Rightarrow> int \<Rightarrow> jsval \<Rightarrow> zset" where
  "zAdd B zs score member =
     insort_key (zkey B) (member, score) (filter (\<lambda>e. fst e \<noteq> member) zs)"

text \<open>
  How Redis reads a pair of ranks on a set of \<open>len\<close> members: a negative rank counts from
  the end, the start is raised to 0, an empty range is \<open>None\<close>, the stop is lowered to the
  last rank. The result is the first rank and the number of ranks.
\<close>

definition rank_range :: "nat \<Rightarrow> int \<Rightarrow> int \<Rightarrow> (nat \<times> nat) option" where
  "rank_range len start stop =
     (let s0 = (if start < 0 then int len + start else start);
          e0 = (if stop < 0 then int len + stop else stop);
          s1 = (if s0 < 0 then 0 else s0)
      in if s1 > e0 then None
         else if s1 \<ge> int len then None
         else let e1 = (if e0 \<ge> int len then int len - 1 else e0)
              in Some (nat s1, nat (e1 - s1 + 1)))"

text \<open>
  The options object the service hands to \<^verbatim>\<open>client.zRange(key, start, stop, options)\<close>,
  with the keys the source sets. The client of the \<^verbatim>\<open>redis\<close> package sends
  \<^verbatim>\<open>ZRANGE key start stop\<close> and reads from the options the keys BY, REV and LIMIT. The
  source sets REV, BYSCORE, MIN and MAX: REV is the only one of them that the client
  reads, so the command is always a range of ranks, and with REV the ranks count from the
  highest score down.
\<close>

record range_options =
  opt_REV :: bool
  opt_BYSCORE :: bool
  opt_MIN :: jsval
  opt_MAX :: jsval

definition zRange :: "zset \<Rightarrow> int \<Rightarrow> int \<Rightarrow> range_options \<Rightarrow> jsval list" where
  "zRange zs start stop options =
     (case rank_range (length zs) start stop of
        None \<Rightarrow> []
      | Some (s, n) \<Rightarrow> map fst (take n (drop s (if opt_REV options then rev zs else zs))))"

text \<open>\<^verbatim>\<open>ZREMRANGEBYRANK key start stop\<close> and \<^verbatim>\<open>ZREMRANGEBYSCORE key min max\<close>.\<close>

definition zRemRangeByRank :: "zset \<Rightarrow> int \<Rightarrow> int \<Rightarrow> zset" where
  "zRemRangeByRank zs start stop =
     (case rank_range (length zs) start stop of
        None \<Rightarrow> zs
      | Some (s, n) \<Rightarrow> take s zs @ drop (s + n) zs)"

definition zRemRangeByScore :: "zset \<Rightarrow> int \<Rightarrow> int \<Rightarrow> zset" where
  "zRemRangeByScore zs lo hi = filter (\<lambda>e. snd e < lo \<or> hi < snd e) zs"

text \<open>
  The service object and the store behind it. \<open>isConnected\<close> is the flag the service
  keeps; \<open>reachable\<close> says whether a command given to the client completes (when it does
  not, the command rejects and the service's \<^verbatim>\<open>catch\<close> runs); it is read once per call
  of the service. The keys of sorted sets and of hashes carry different prefixes, so they
  are kept in two tables, each in the order the keys were created; the value of a field
  of a hash is a text. \<open>expiry\<close> gives the deadline of each key that has one, in
  milliseconds of the clock. The store handed to a function of the service is the store
  at that moment: what it has done by itself until then is \<open>expireKeys\<close>.
\<close>

record redis_service =
  isConnected :: bool
  reachable :: bool
  zsets :: "(string \<times> zset) list"
  hashes :: "(string \<times> (string \<times> string) list) list"
  expiry :: "string \<Rightarrow> int option"

definition zset_at :: "redis_service \<Rightarrow> string \<Rightarrow> zset" where
  "zset_at r key = (case map_of (zsets r) key of Some zs \<Rightarrow> zs | None \<Rightarrow> [])"

text \<open>Redis removes the key of a sorted set that has become empty, and its deadline with it.\<close>

definition zset_put :: "redis_service \<Rightarrow> string \<Rightarrow> zset \<Rightarrow> redis_service" where
  "zset_put r key zs =
     (if zs = []
      then r\<lparr>zsets := AList.delete key (zsets r), expiry := (expiry r)(key := None)\<rparr>
      else r\<lparr>zsets := AList.update key zs (zsets r)\<rparr>)"

text \<open>
  \<^verbatim>\<open>HGETALL key\<close> and \<^verbatim>\<open>HSET key field value ...\<close>. The client writes the value of a
  field as text: a string as it is, a number by \<^verbatim>\<open>toString()\<close>; it throws a TypeError
  for a value of any other type, which is \<open>None\<close> here.
\<close>

definition hGetAll :: "redis_service \<Rightarrow> string \<Rightarrow> (string \<times> string) list" where
  "hGetAll r key = (case map_of (hashes r) key of Some h \<Rightarrow> h | None \<Rightarrow> [])"

definition hash_text :: "builtins \<Rightarrow> jsval \<Rightarrow> string option" where
  "hash_text B v =
     (case v of JStr s \<Rightarrow> Some s | JNum n \<Rightarrow> Some (stringOf B (JNum n)) | _ \<Rightarrow> None)"

definition hSet :: "redis_service \<Rightarrow> string \<Rightarrow> (string \<times> string) list \<Rightarrow> redis_service" where
  "hSet r key props =
     r\<lparr>hashes := AList.update key
                    (foldl (\<lambda>acc kv. AList.update (fst kv) (snd kv) acc) (hGetAll r key) props)
                    (hashes r)\<rparr>"

text \<open>\<^verbatim>\<open>EXPIRE key seconds\<close>, given at the time \<open>now\<close>; a key that does not exist gets none.\<close>

definition expire :: "int \<Rightarrow> redis_service \<Rightarrow> string \<Rightarrow> int \<Rightarrow> redis_service" where
  "expire now r key seconds =
     (if key \<in> set (map fst (zsets r)) \<union> set (map fst (hashes r))
      then r\<lparr>expiry := (expiry r)(key := Some (now + seconds * 1000))\<rparr>
      else r)"

text \<open>
  What the store has done by itself when the clock reads \<open>now\<close>: a key whose deadline has
  come is gone.
\<close>

definition alive :: "int \<Rightarrow> redis_service \<Rightarrow> string \<Rightarrow> bool" where
  "alive now r key = (case expiry r key of Some deadline \<Rightarrow> now < deadline | None \<Rightarrow> True)"

definition expireKeys :: "int \<Rightarrow> redis_service \<Rightarrow> redis_service" where
  "expireKeys now r =
     r\<lparr>zsets := filter (\<lambda>kv. alive now r (fst kv)) (zsets r),
       hashes := filter (\<lambda>kv. alive now r (fst kv)) (hashes r),
       expiry := (\<lambda>key. if alive now r key then expiry r key else None)\<rparr>"

text \<open>\<^verbatim>\<open>KEYS location_share:locations:*\<close>.\<close>

definition locationKeys :: "redis_service \<Rightarrow> string list" where
  "locationKeys r =
     filter (\<lambda>k. take (length (keyPrefix @ ''locations:'')) k = keyPrefix @ ''locations:'')
       (map fst (zsets r))"

section \<open>RedisService\<close>

definition locationKey :: "builtins \<Rightarrow> jsval \<Rightarrow> string" where
  "locationKey B username = keyPrefix @ ''locations:'' @ template_text B username"

definition userKey :: "builtins \<Rightarrow> jsval \<Rightarrow> string" where
  "userKey B username = keyPrefix @ ''user:'' @ template_text B username"

text \<open>\<^verbatim>\<open>locationData.lastUpdate || new Date().toISOString()\<close>.\<close>

definition lastUpdate_or_now :: "builtins \<Rightarrow> int \<Rightarrow> jsval \<Rightarrow> jsval" where
  "lastUpdate_or_now B now v =
     (if truthy (get_field v ''lastUpdate'') then get_field v ''lastUpdate''
      else JStr (toISOString B now))"

text \<open>
  The member written for an update: the JSON text of the four properties, in the order
  of the source. \<^verbatim>\<open>JSON.stringify\<close> leaves out a property whose value is
  \<^verbatim>\<open>undefined\<close>.
\<close>

definition locationEntry :: "builtins \<Rightarrow> int \<Rightarrow> jsval \<Rightarrow> jsval" where
  "locationEntry B now locationData =
     JObj (filter (\<lambda>kv. snd kv \<noteq> JUndefined)
       [(''latitude'', json_value (get_field locationData ''latitude'')),
        (''longitude'', json_value (get_field locationData ''longitude'')),
        (''name'', json_value (get_field locationData ''name'')),
        (''lastUpdate'', json_value (lastUpdate_or_now B now locationData))])"

text \<open>
  \<^verbatim>\<open>storeUserLocation(username, locationData)\<close>: the result and the store afterwards.
  The five commands run in the order of the source, each on the result of the one before.
  When the client refuses a value of the hash, the three commands before it have run and
  the \<^verbatim>\<open>catch\<close> of the service returns \<^verbatim>\<open>false\<close>.
\<close>

definition storeUserLocation ::
  "builtins \<Rightarrow> int \<Rightarrow> redis_service \<Rightarrow> jsval \<Rightarrow> jsval \<Rightarrow> bool \<times> redis_service" where
  "storeUserLocation B now r username locationData =
     (if \<not> isConnected r then (False, r)
      else if \<not> reachable r then (False, r)
      else
        let timestamp = now;
            r1 = zset_put r (locationKey B username)
                   (zAdd B (zset_at r (locationKey B username)) timestamp
                      (locationEntry B now locationData));
            r2 = zset_put r1 (locationKey B username)
                   (zRemRangeByRank (zset_at r1 (locationKey B username)) 0
                      (- int maxLocationEntries - 1));
            r3 = expire now r2 (locationKey B username) locationTTL
        in (case hash_text B (get_field locationData ''name'') of
              None \<Rightarrow> (False, r3)
            | Some name_text \<Rightarrow>
                (case hash_text B (lastUpdate_or_now B now locationData) of
                   None \<Rightarrow> (False, r3)
                 | Some lastUpdate_text \<Rightarrow>
                     let r4 = hSet r3 (userKey B username)
                                [(''name'', name_text), (''lastUpdate'', lastUpdate_text)];
                         r5 = expire now r4 (userKey B username) userTTL
                     in (True, r5))))"

text \<open>\<^verbatim>\<open>getLatestUserLocation(username)\<close>; \<open>JNull\<close> is the \<^verbatim>\<open>null\<close> of the source.\<close>

definition getLatestUserLocation :: "builtins \<Rightarrow> redis_service \<Rightarrow> jsval \<Rightarrow> jsval" where
  "getLatestUserLocation B r username =
     (if \<not> isConnected r then JNull
      else if \<not> reachable r then JNull
      else
        (case zRange (zset_at r (locationKey B username)) (- 1) (- 1)
                \<lparr>opt_REV = True, opt_BYSCORE = False, opt_MIN = JUndefined, opt_MAX = JUndefined\<rparr> of
           [] \<Rightarrow> JNull
         | locationData # rest \<Rightarrow>
             JObj (obj_spread (obj_props locationData)
                     (map (\<lambda>kv. (fst kv, JStr (snd kv))) (hGetAll r (userKey B username))))))"

text \<open>
  \<^verbatim>\<open>getUserLocationHistory(username, startTime, endTime)\<close>; the two bounds are numbers
  or \<^verbatim>\<open>null\<close>.
\<close>

definition history_options :: "jsval \<Rightarrow> jsval \<Rightarrow> range_options" where
  "history_options startTime endTime =
     (if truthy startTime
      then (if truthy endTime
            then \<lparr>opt_REV = True, opt_BYSCORE = True, opt_MIN = startTime, opt_MAX = endTime\<rparr>
            else \<lparr>opt_REV = True, opt_BYSCORE = False, opt_MIN = JUndefined, opt_MAX = JUndefined\<rparr>)
      else \<lparr>opt_REV = True, opt_BYSCORE = False, opt_MIN = JUndefined, opt_MAX = JUndefined\<rparr>)"

definition getUserLocationHistory ::
  "builtins \<Rightarrow> redis_service \<Rightarrow> jsval \<Rightarrow> jsval \<Rightarrow> jsval \<Rightarrow> jsval list" where
  "getUserLocationHistory B r username startTime endTime =
     (if \<not> isConnected r then []
      else if \<not> reachable r then []
      else map (\<lambda>location. JObj (obj_props location))
             (zRange (zset_at r (locationKey B username)) 0 (- 1)
                (history_options startTime endTime)))"

text \<open>
  \<^verbatim>\<open>getAllUsersWithLocations()\<close>. An asynchronous call resolves to a value or rejects
  with an error, which the caller's \<^verbatim>\<open>catch\<close> receives. The username is the key
  without its prefix.
\<close>

datatype 'a settled = Rejected string | Resolved 'a

definition getAllUsersWithLocations :: "builtins \<Rightarrow> redis_service \<Rightarrow> jsval list settled" where
  "getAllUsersWithLocations B r =
     (if \<not> isConnected r then Resolved []
      else if \<not> reachable r then Resolved []
      else Resolved
        (filter truthy
           (map (\<lambda>key. getLatestUserLocation B r (JStr (drop (length (keyPrefix @ ''locations:'')) key)))
              (locationKeys r))))"

text \<open>\<^verbatim>\<open>cleanupOldEntries()\<close>.\<close>

definition cleanupOldEntries :: "int \<Rightarrow> redis_service \<Rightarrow> redis_service" where
  "cleanupOldEntries now r =
     (if \<not> isConnected r then r
      else if \<not> reachable r then r
      else foldl (\<lambda>acc key. zset_put acc key (zRemRangeByScore (zset_at acc key) 0 (now - locationTTL * 1000)))
             r (locationKeys r))"

section \<open>LocationServer\<close>

text \<open>
  A message given to \<^verbatim>\<open>sendMessage\<close>, which sends its JSON text: its type and its
  data. An error is told by its code; the texts that accompany the code are left out.
\<close>

datatype out_msg =
    Connected
  | ErrorMsg string
  | UsersList "jsval list"
  | LocationHistory jsval "jsval list"
  | UserLocation jsval

text \<open>
  A connection: the \<^verbatim>\<open>username\<close> property the server keeps on it, whether it has been
  closed, and the messages sent on it so far.
\<close>

record websocket =
  username :: jsval
  isClosed :: bool
  outbox :: "out_msg list"

text \<open>
  The three maps of the server are lists of (key, value) in insertion order, as a
  JavaScript Map iterates; the keys are the \<^verbatim>\<open>data.name\<close> values, strings wherever a
  handler wrote them, and compare as values. Connections are named by numbers and
  \<open>sockets\<close> holds each connection's state, so that two usernames may share one
  connection.
\<close>

record server =
  users :: "(jsval \<times> jsval) list"
  connections :: "(jsval \<times> nat) list"
  userRateLimit :: "(jsval \<times> int) list"
  sockets :: "nat \<Rightarrow> websocket"
  redis :: redis_service

text \<open>
  \<^verbatim>\<open>sendMessage(ws, message)\<close>. The test of the source compares \<^verbatim>\<open>ws.readyState\<close> with
  \<^verbatim>\<open>uWS.OPEN\<close>, two properties that the library does not define, so it holds for every
  connection; \<^verbatim>\<open>ws.send\<close> on a closed connection throws, and the throw is caught. So a
  message reaches an open connection and nothing happens on a closed one.
\<close>

definition sendMessage :: "server \<Rightarrow> nat \<Rightarrow> out_msg \<Rightarrow> server" where
  "sendMessage s ws message =
     (if isClosed (sockets s ws) then s
      else s\<lparr>sockets := (sockets s)(ws := (sockets s ws)\<lparr>outbox := outbox (sockets s ws) @ [message]\<rparr>)\<rparr>)"

definition sendError :: "server \<Rightarrow> nat \<Rightarrow> string \<Rightarrow> server" where
  "sendError s ws code = sendMessage s ws (ErrorMsg code)"

definition broadcastToOthers :: "server \<Rightarrow> jsval \<Rightarrow> out_msg \<Rightarrow> server" where
  "broadcastToOthers s excludeUsername message =
     foldl (\<lambda>acc c. if fst c \<noteq> excludeUsername then sendMessage acc (snd c) message else acc)
       s (connections s)"

definition broadcastToAll :: "server \<Rightarrow> out_msg \<Rightarrow> server" where
  "broadcastToAll s message = foldl (\<lambda>acc c. sendMessage acc (snd c) message) s (connections s)"

text \<open>\<^verbatim>\<open>isRateLimited(username)\<close>; \<^verbatim>\<open>!lastUpdate\<close> holds for no entry and for the entry 0.\<close>

definition isRateLimited :: "server \<Rightarrow> int \<Rightarrow> jsval \<Rightarrow> bool" where
  "isRateLimited s now name =
     (case map_of (userRateLimit s) name of
        None \<Rightarrow> False
      | Some lastUpdate \<Rightarrow>
          (if lastUpdate = 0 then False else now - lastUpdate < locationUpdateInterval))"

definition userData :: "builtins \<Rightarrow> int \<Rightarrow> jsval \<Rightarrow> jsval" where
  "userData B now d =
     JObj [(''name'', get_field d ''name''),
           (''latitude'', get_field d ''latitude''),
           (''longitude'', get_field d ''longitude''),
           (''lastUpdate'', lastUpdate_or_now B now d)]"

text \<open>
  \<^verbatim>\<open>handleLocationUpdate(ws, data)\<close>. The handler runs as one step: the writes to the
  maps, the call of the store and the broadcast follow each other with no other message
  handled in between.
\<close>

definition handleLocationUpdate :: "builtins \<Rightarrow> int \<Rightarrow> server \<Rightarrow> nat \<Rightarrow> jsval \<Rightarrow> server" where
  "handleLocationUpdate B now s ws d =
     (case validateLocationData B now d of
        Invalid code \<Rightarrow> sendError s ws code
      | Valid \<Rightarrow>
          (if isRateLimited s now (get_field d ''name'') then sendError s ws ''RATE_LIMITED''
           else if map_of (users s) (get_field d ''name'') = None \<and> length (users s) \<ge> maxUsers
           then sendError s ws ''USER_LIMIT_EXCEEDED''
           else
             let s1 = s\<lparr>userRateLimit := AList.update (get_field d ''name'') now (userRateLimit s)\<rparr>;
                 s2 = s1\<lparr>users := AList.update (get_field d ''name'') (userData B now d) (users s1)\<rparr>;
                 s3 = s2\<lparr>connections := AList.update (get_field d ''name'') ws (connections s2)\<rparr>;
                 s4 = s3\<lparr>sockets := (sockets s3)(ws := (sockets s3 ws)\<lparr>username := get_field d ''name''\<rparr>)\<rparr>;
                 s5 = s4\<lparr>redis := snd (storeUserLocation B now (redis s4) (get_field d ''name'') (userData B now d))\<rparr>
             in broadcastToOthers s5 (get_field d ''name'') (UserLocation (userData B now d))))"

text \<open>\<^verbatim>\<open>handleUserDisconnect(username)\<close>.\<close>

definition handleUserDisconnect :: "server \<Rightarrow> jsval \<Rightarrow> server" where
  "handleUserDisconnect s name =
     (case map_of (users s) name of
        None \<Rightarrow> s
      | Some user \<Rightarrow>
          (if truthy user
           then s\<lparr>users := AList.delete name (users s),
                  connections := AList.delete name (connections s),
                  userRateLimit := AList.delete name (userRateLimit s)\<rparr>
           else s))"

text \<open>
  The \<^verbatim>\<open>close\<close> handler of the route, and \<^verbatim>\<open>ws.close()\<close>, which closes the connection
  and runs that handler.
\<close>

definition onClose :: "server \<Rightarrow> nat \<Rightarrow> server" where
  "onClose s ws =
     (if truthy (username (sockets s ws)) then handleUserDisconnect s (username (sockets s ws))
      else s)"

definition ws_close :: "server \<Rightarrow> nat \<Rightarrow> server" where
  "ws_close s ws = onClose (s\<lparr>sockets := (sockets s)(ws := (sockets s ws)\<lparr>isClosed := True\<rparr>)\<rparr>) ws"

text \<open>
  \<^verbatim>\<open>ws.username === data.name\<close>, where \<^verbatim>\<open>ws.username\<close> is \<^verbatim>\<open>null\<close> or a string: equal
  values of the same primitive type.
\<close>

definition strict_equals :: "jsval \<Rightarrow> jsval \<Rightarrow> bool" where
  "strict_equals a b =
     (case a of
        JStr x \<Rightarrow> b = JStr x
      | JNull \<Rightarrow> b = JNull
      | JUndefined \<Rightarrow> b = JUndefined
      | JBool x \<Rightarrow> b = JBool x
      | JNum (Fin x) \<Rightarrow> b = JNum (Fin x)
      | JNum PosInf \<Rightarrow> b = JNum PosInf
      | JNum NegInf \<Rightarrow> b = JNum NegInf
      | _ \<Rightarrow> False)"

definition handleUserDisconnectRequest :: "server \<Rightarrow> nat \<Rightarrow> jsval \<Rightarrow> server" where
  "handleUserDisconnectRequest s ws d =
     (if \<not> truthy (get_field d ''name'') then sendError s ws ''INVALID_DISCONNECT''
      else if strict_equals (username (sockets s ws)) (get_field d ''name'')
      then ws_close (handleUserDisconnect s (get_field d ''name'')) ws
      else sendError s ws ''UNAUTHORIZED_DISCONNECT'')"

text \<open>\<^verbatim>\<open>sendUsersList(ws)\<close>, with the \<^verbatim>\<open>catch\<close> of the source as the second case.\<close>

definition sendUsersList :: "builtins \<Rightarrow> server \<Rightarrow> nat \<Rightarrow> server" where
  "sendUsersList B s ws =
     (case getAllUsersWithLocations B (redis s) of
        Resolved allUsers \<Rightarrow>
          (let connectedUsers = map snd (users s);
               connectedUsernames = map (\<lambda>u. get_field u ''name'') connectedUsers;
               usersWithStatus =
                 map (\<lambda>user. JObj (AList.update ''connected''
                                     (JBool (get_field user ''name'' \<in> set connectedUsernames))
                                     (obj_props user)))
                   allUsers
           in sendMessage s ws (UsersList usersWithStatus))
      | Rejected err \<Rightarrow> sendMessage s ws (UsersList (map snd (users s))))"

text \<open>
  \<^verbatim>\<open>handleLocationHistoryRequest(ws, data)\<close>. Nothing inside the \<^verbatim>\<open>try\<close> of the source
  throws, the service catching its own errors, so the reply HISTORY_ERROR of its
  \<^verbatim>\<open>catch\<close> is never sent.
\<close>

definition history_bound :: "builtins \<Rightarrow> jsval \<Rightarrow> jsval" where
  "history_bound B v =
     (if truthy v
      then (case dateGetTime B v of Some t \<Rightarrow> JNum (Fin (real_of_int t)) | None \<Rightarrow> JNum NaN)
      else JNull)"

definition handleLocationHistoryRequest :: "builtins \<Rightarrow> server \<Rightarrow> nat \<Rightarrow> jsval \<Rightarrow> server" where
  "handleLocationHistoryRequest B s ws d =
     (if \<not> truthy d then sendError s ws ''MISSING_USERNAME''
      else if \<not> truthy (get_field d ''username'') then sendError s ws ''MISSING_USERNAME''
      else sendMessage s ws
             (LocationHistory (get_field d ''username'')
                (getUserLocationHistory B (redis s) (get_field d ''username'')
                   (history_bound B (get_field d ''startTime''))
                   (history_bound B (get_field d ''endTime'')))))"

text \<open>
  \<^verbatim>\<open>handleMessage(ws, message)\<close>, the switch on the type of the message. The source
  attaches a \<^verbatim>\<open>catch\<close> to the three asynchronous handlers; none of them rejects, since
  the service catches the errors of its own commands and \<^verbatim>\<open>sendMessage\<close> those of the
  connection.
\<close>

definition handleMessage :: "builtins \<Rightarrow> int \<Rightarrow> server \<Rightarrow> nat \<Rightarrow> jsval \<Rightarrow> server" where
  "handleMessage B now s ws message =
     (if \<not> truthy (get_field message ''type'') then sendError s ws ''INVALID_MESSAGE''
      else if \<not> truthy (get_field message ''data'') then sendError s ws ''INVALID_MESSAGE''
      else if get_field message ''type'' = JStr ''location_update''
      then handleLocationUpdate B now s ws (get_field message ''data'')
      else if get_field message ''type'' = JStr ''user_disconnect''
      then handleUserDisconnectRequest s ws (get_field message ''data'')
      else if get_field message ''type'' = JStr ''get_users''
      then sendUsersList B s ws
      else if get_field message ''type'' = JStr ''get_location_history''
      then handleLocationHistoryRequest B s ws (get_field message ''data'')
      else sendError s ws ''UNKNOWN_MESSAGE_TYPE'')"


text \<open>The \<^verbatim>\<open>open\<close> handler of the route.\<close>

definition onOpen :: "builtins \<Rightarrow> server \<Rightarrow> nat \<Rightarrow> server" where
  "onOpen B s ws =
     sendUsersList B
       (sendMessage (s\<lparr>sockets := (sockets s)(ws := (sockets s ws)\<lparr>username := JNull\<rparr>)\<rparr>) ws Connected)
       ws"

text \<open>\<^verbatim>\<open>loadUsersFromRedis()\<close>, run once when the store has been connected at startup.\<close>

definition loadUsersFromRedis :: "builtins \<Rightarrow> server \<Rightarrow> server" where
  "loadUsersFromRedis B s =
     (case getAllUsersWithLocations B (redis s) of
        Resolved loaded \<Rightarrow>
          s\<lparr>users := foldl (\<lambda>acc user. AList.update (get_field user ''name'') user acc) (users s) loaded\<rparr>
      | Rejected err \<Rightarrow> s)"

text \<open>One tick of the timer of \<^verbatim>\<open>startCleanupTimer()\<close>.\<close>

definition staleUsers :: "builtins \<Rightarrow> int \<Rightarrow> server \<Rightarrow> jsval list" where
  "staleUsers B now s =
     map fst (filter (\<lambda>kv. case dateGetTime B (get_field (snd kv) ''lastUpdate'') of
                              Some lastUpdate \<Rightarrow> now - lastUpdate > userTimeout
                            | None \<Rightarrow> False)
                (users s))"

definition cleanupTick :: "builtins \<Rightarrow> int \<Rightarrow> server \<Rightarrow> server" where
  "cleanupTick B now s =
     (let s1 = foldl handleUserDisconnect s (staleUsers B now s)
      in s1\<lparr>redis := cleanupOldEntries now (redis s1)\<rparr>)"

text \<open>The \<^verbatim>\<open>/health\<close> endpoint: the fields connectedUsers and redis.connected.\<close>

definition health :: "server \<Rightarrow> nat \<times> bool" where
  "health s = (length (users s), isConnected (redis s))"

section \<open>Scenarios\<close>

text \<open>
  The built-ins at the instants and on the values that the examples below use (their
  number literals are written exactly by doubles or are, in absolute value, at least
  \<open>2 ^ 1024\<close>, beyond the range of the doubles; no two members of a sorted set in them
  share a score, so that the text of a member is not looked at), a connection that
  has just been opened, an empty store (connected or not), the server right after its
  start, the data of an update without lastUpdate, a message, and the store after a list
  of appends, each with the reading of the clock at which it is made and after what the
  store has done by itself until then.
\<close>

definition instants :: "(int \<times> string) list" where
  "instants =
     [(1700000000000, ''2023-11-14T22:13:20.000Z''),
      (1700000000100, ''2023-11-14T22:13:20.100Z''),
      (1700000000500, ''2023-11-14T22:13:20.500Z''),
      (1700000002000, ''2023-11-14T22:13:22.000Z'')]"

definition builtins_at_instants :: builtins where
  "builtins_at_instants =
     \<lparr>dateGetTime = (\<lambda>v. case v of
                             JStr s \<Rightarrow> map_of (map (\<lambda>p. (snd p, fst p)) instants) s
                           | JNum (Fin x) \<Rightarrow> (if x = 0 then Some 0 else None)
                           | _ \<Rightarrow> None),
      toISOString = (\<lambda>t. case map_of instants t of Some s \<Rightarrow> s | None \<Rightarrow> []),
      stringOf = (\<lambda>v. []),
      jsonText = (\<lambda>v. []),
      nearestDouble = (\<lambda>x. if \<bar>x\<bar> < 2 ^ 1024 then Some x else None)\<rparr>"

definition fresh_socket :: websocket where
  "fresh_socket = \<lparr>username = JNull, isClosed = False, outbox = []\<rparr>"

definition empty_store :: "bool \<Rightarrow> redis_service" where
  "empty_store up =
     \<lparr>isConnected = up, reachable = up, zsets = [], hashes = [], expiry = (\<lambda>key. None)\<rparr>"

definition started :: "bool \<Rightarrow> server" where
  "started up =
     \<lparr>users = [], connections = [], userRateLimit = [], sockets = (\<lambda>ws. fresh_socket),
      redis = empty_store up\<rparr>"

definition update_data :: "string \<Rightarrow> jsnum \<Rightarrow> jsnum \<Rightarrow> jsval" where
  "update_data nm lat lon =
     JObj [(''name'', JStr nm), (''latitude'', JNum lat), (''longitude'', JNum lon)]"

definition message_of :: "string \<Rightarrow> jsval \<Rightarrow> jsval" where
  "message_of ty d = JObj [(''type'', JStr ty), (''data'', d)]"

fun appendAll :: "builtins \<Rightarrow> redis_service \<Rightarrow> jsval \<Rightarrow> (int \<times> jsval) list \<Rightarrow> redis_service" where
  "appendAll B r u [] = r"
| "appendAll B r u (td # rest) =
     appendAll B (snd (storeUserLocation B (fst td) (expireKeys (fst td) r) u (snd td))) u rest"

text \<open>Each time of a list comes before the deadline that an append at the time before it sets.\<close>

fun within_ttl :: "int list \<Rightarrow> bool" where
  "within_ttl (a # b # ts) = (b < a + locationTTL * 1000 \<and> within_ttl (b # ts))"
| "within_ttl ts = True"

text \<open>A users map of \<open>n\<close> users, none of them called alice.\<close>

definition crowd :: "nat \<Rightarrow> (jsval \<times> jsval) list" where
  "crowd n =
     map (\<lambda>i. (JStr (replicate (Suc i) CHR ''u''), JObj [(''name'', JStr (replicate (Suc i) CHR ''u''))]))
       [0..<n]"

section \<open>Notions of the statements\<close>

text \<open>
  An update is accepted when it passes the three checks that \<^verbatim>\<open>handleLocationUpdate\<close>
  makes before it writes anything: validation, the rate limit and the user limit.
\<close>

definition accepted :: "builtins \<Rightarrow> int \<Rightarrow> server \<Rightarrow> jsval \<Rightarrow> bool" where
  "accepted B now s d =
     (validateLocationData B now d = Valid \<and>
      \<not> isRateLimited s now (get_field d ''name'') \<and>
      \<not> (map_of (users s) (get_field d ''name'') = None \<and> length (users s) \<ge> maxUsers))"

text \<open>The server \<open>s\<close> with one more message sent on \<open>ws\<close> and nothing else changed.\<close>

definition with_reply :: "server \<Rightarrow> nat \<Rightarrow> out_msg \<Rightarrow> server" where
  "with_reply s ws m =
     s\<lparr>sockets := (sockets s)(ws := (sockets s ws)\<lparr>outbox := outbox (sockets s ws) @ [m]\<rparr>)\<rparr>"

text \<open>The loop of \<^verbatim>\<open>broadcastToOthers\<close> over any list of connections.\<close>

definition deliver :: "jsval \<Rightarrow> out_msg \<Rightarrow> server \<Rightarrow> (jsval \<times> nat) list \<Rightarrow> server" where
  "deliver ex m s cs = foldl (\<lambda>acc c. if fst c \<noteq> ex then sendMessage acc (snd c) m else acc) s cs"

text \<open>The member and the score that an append of the record \<open>snd td\<close> at the time \<open>fst td\<close> writes.\<close>

definition entry_of :: "builtins \<Rightarrow> int \<times> jsval \<Rightarrow> jsval \<times> int" where
  "entry_of B td = (locationEntry B (fst td) (snd td), fst td)"

subsection \<open>The rules of validation in the words of the specification\<close>







subsection \<open>Frames of updates\<close>




section \<open>Facts about the scenarios\<close>

lemma update_data_fields [simp]:
  "get_field (update_data nm lat lon) ''name'' = JStr nm"
  "get_field (update_data nm lat lon) ''latitude'' = JNum lat"
  "get_field (update_data nm lat lon) ''longitude'' = JNum lon"
  "get_field (update_data nm lat lon) ''lastUpdate'' = JUndefined"
  by (simp_all add: update_data_def)

lemma started_fields [simp]:
  "users (started up) = []"
  "connections (started up) = []"
  "userRateLimit (started up) = []"
  "sockets (started up) w = fresh_socket"
  "redis (started up) = empty_store up"
  by (simp_all add: started_def)

lemma fresh_socket_fields [simp]:
  "username fresh_socket = JNull"
  "isClosed fresh_socket = False"
  "outbox fresh_socket = []"
  by (simp_all add: fresh_socket_def)

lemma empty_store_fields [simp]:
  "isConnected (empty_store up) = up"
  "reachable (empty_store up) = up"
  "zsets (empty_store up) = []"
  "hashes (empty_store up) = []"
  "expiry (empty_store up) key = None"
  by (simp_all add: empty_store_def)

lemma toISOString_at_instants [simp]:
  "toISOString builtins_at_instants 1700000000000 = ''2023-11-14T22:13:20.000Z''"
  "toISOString builtins_at_instants 1700000000100 = ''2023-11-14T22:13:20.100Z''"
  "toISOString builtins_at_instants 1700000000500 = ''2023-11-14T22:13:20.500Z''"
  "toISOString builtins_at_instants 1700000002000 = ''2023-11-14T22:13:22.000Z''"
  by (simp_all add: builtins_at_instants_def instants_def)

section \<open>Validation\<close>






lemma validate_update_data:
  "nm \<noteq> [] \<Longrightarrow> length nm \<le> 50 \<Longrightarrow> \<not> js_less lat (Fin (- 90)) \<Longrightarrow> \<not> js_less (Fin 90) lat \<Longrightarrow>
   \<not> js_less lon (Fin (- 180)) \<Longrightarrow> \<not> js_less (Fin 180) lon \<Longrightarrow>
   validateLocationData B now (update_data nm lat lon) = Valid"
  by (simp add: validateLocationData_def latitude_rejected_def longitude_rejected_def
      lastUpdate_stale_def maxNameLength_def)

lemma invalid_codes:
  "validateLocationData B now d = Invalid code \<Longrightarrow>
   code = ''INVALID_NAME'' \<or> code = ''INVALID_LOCATION'' \<or> code = ''STALE_LOCATION''"
  by (auto simp: validateLocationData_def split: if_splits)

subsection \<open>What a frame decodes to\<close>












section \<open>Sending and broadcasting\<close>

lemma sendMessage_fields [simp]:
  "users (sendMessage s ws m) = users s"
  "connections (sendMessage s ws m) = connections s"
  "userRateLimit (sendMessage s ws m) = userRateLimit s"
  "redis (sendMessage s ws m) = redis s"
  by (simp_all add: sendMessage_def)

lemma sendMessage_socket:
  "sockets (sendMessage s ws m) w =
     (if w = ws \<and> \<not> isClosed (sockets s ws)
      then (sockets s ws)\<lparr>outbox := outbox (sockets s ws) @ [m]\<rparr>
      else sockets s w)"
  by (simp add: sendMessage_def)

lemma sendMessage_username [simp]:
  "username (sockets (sendMessage s ws m) w) = username (sockets s w)"
  by (simp add: sendMessage_socket)

lemma sendMessage_isClosed [simp]:
  "isClosed (sockets (sendMessage s ws m) w) = isClosed (sockets s w)"
  by (simp add: sendMessage_socket)

lemma sendMessage_outbox:
  "outbox (sockets (sendMessage s ws m) w) =
     outbox (sockets s w) @ (if w = ws \<and> \<not> isClosed (sockets s w) then [m] else [])"
  by (simp add: sendMessage_socket)

lemma sendMessage_open:
  "\<not> isClosed (sockets s ws) \<Longrightarrow> sendMessage s ws m = with_reply s ws m"
  by (simp add: sendMessage_def with_reply_def)

lemma sendError_open:
  "\<not> isClosed (sockets s ws) \<Longrightarrow> sendError s ws code = with_reply s ws (ErrorMsg code)"
  by (simp add: sendError_def sendMessage_open)

lemma with_reply_fields [simp]:
  "users (with_reply s ws m) = users s"
  "connections (with_reply s ws m) = connections s"
  "userRateLimit (with_reply s ws m) = userRateLimit s"
  "redis (with_reply s ws m) = redis s"
  "username (sockets (with_reply s ws m) w) = username (sockets s w)"
  "isClosed (sockets (with_reply s ws m) w) = isClosed (sockets s w)"
  "outbox (sockets (with_reply s ws m) ws) = outbox (sockets s ws) @ [m]"
  by (simp_all add: with_reply_def)

lemma deliver_Nil [simp]: "deliver ex m s [] = s"
  by (simp add: deliver_def)

lemma deliver_Cons [simp]:
  "deliver ex m s (c # cs) = deliver ex m (if fst c \<noteq> ex then sendMessage s (snd c) m else s) cs"
  by (simp add: deliver_def)

lemma deliver_fields [simp]:
  "users (deliver ex m s cs) = users s"
  "connections (deliver ex m s cs) = connections s"
  "userRateLimit (deliver ex m s cs) = userRateLimit s"
  "redis (deliver ex m s cs) = redis s"
  "username (sockets (deliver ex m s cs) w) = username (sockets s w)"
  "isClosed (sockets (deliver ex m s cs) w) = isClosed (sockets s w)"
  by (induction cs arbitrary: s; simp)+

text \<open>A broadcast adds to an open connection one copy of the message for each username
  other than the sender's that is bound to it.\<close>

lemma deliver_outbox:
  "outbox (sockets (deliver ex m s cs) w) =
     outbox (sockets s w) @
       (if isClosed (sockets s w) then []
        else replicate (length (filter (\<lambda>c. fst c \<noteq> ex \<and> snd c = w) cs)) m)"
proof (induction cs arbitrary: s)
  case Nil
  then show ?case by simp
next
  case (Cons c cs)
  show ?case
    by (simp add: Cons.IH sendMessage_outbox replicate_app_Cons_same)
qed

lemma broadcast_deliver: "broadcastToOthers s ex m = deliver ex m s (connections s)"
  by (simp add: broadcastToOthers_def deliver_def)

section \<open>The handler of an update\<close>

lemma handleMessage_update:
  "handleMessage B now s ws (message_of ''location_update'' (update_data nm lat lon)) =
   handleLocationUpdate B now s ws (update_data nm lat lon)"
  by (simp add: handleMessage_def message_of_def update_data_def)

lemma userData_update_data:
  "userData B now (update_data nm lat lon) =
     JObj [(''name'', JStr nm), (''latitude'', JNum lat), (''longitude'', JNum lon),
           (''lastUpdate'', JStr (toISOString B now))]"
  by (simp add: userData_def lastUpdate_or_now_def)

lemma handleLocationUpdate_not_accepted:
  "\<not> accepted B now s d \<Longrightarrow>
   handleLocationUpdate B now s ws d =
     sendError s ws
       (case validateLocationData B now d of
          Invalid code \<Rightarrow> code
        | Valid \<Rightarrow> if isRateLimited s now (get_field d ''name'') then ''RATE_LIMITED''
                   else ''USER_LIMIT_EXCEEDED'')"
  by (auto simp: accepted_def handleLocationUpdate_def split: validation.splits)

lemma handleLocationUpdate_accepted:
  assumes "accepted B now s d"
  shows "handleLocationUpdate B now s ws d =
     deliver (get_field d ''name'') (UserLocation (userData B now d))
       (s\<lparr>userRateLimit := AList.update (get_field d ''name'') now (userRateLimit s),
          users := AList.update (get_field d ''name'') (userData B now d) (users s),
          connections := AList.update (get_field d ''name'') ws (connections s),
          sockets := (sockets s)(ws := (sockets s ws)\<lparr>username := get_field d ''name''\<rparr>),
          redis := snd (storeUserLocation B now (redis s) (get_field d ''name'') (userData B now d))\<rparr>)
       (AList.update (get_field d ''name'') ws (connections s))"
  using assms
  by (auto simp add: accepted_def handleLocationUpdate_def Let_def broadcast_deliver)

lemma accepted_fields:
  assumes "accepted B now s d"
  shows "users (handleLocationUpdate B now s ws d) =
           AList.update (get_field d ''name'') (userData B now d) (users s)"
    and "connections (handleLocationUpdate B now s ws d) =
           AList.update (get_field d ''name'') ws (connections s)"
    and "userRateLimit (handleLocationUpdate B now s ws d) =
           AList.update (get_field d ''name'') now (userRateLimit s)"
    and "redis (handleLocationUpdate B now s ws d) =
           snd (storeUserLocation B now (redis s) (get_field d ''name'') (userData B now d))"
    and "username (sockets (handleLocationUpdate B now s ws d) w) =
           (if w = ws then get_field d ''name'' else username (sockets s w))"
    and "isClosed (sockets (handleLocationUpdate B now s ws d) w) = isClosed (sockets s w)"
    and "outbox (sockets (handleLocationUpdate B now s ws d) w) =
           outbox (sockets s w) @
             (if isClosed (sockets s w) then []
              else replicate
                     (length (filter (\<lambda>c. fst c \<noteq> get_field d ''name'' \<and> snd c = w)
                                (AList.update (get_field d ''name'') ws (connections s))))
                     (UserLocation (userData B now d)))"
  by (simp_all add: handleLocationUpdate_accepted [OF assms] deliver_outbox)

section \<open>The store\<close>

lemma zset_put_fields [simp]:
  "isConnected (zset_put r k zs) = isConnected r"
  "reachable (zset_put r k zs) = reachable r"
  "hashes (zset_put r k zs) = hashes r"
  by (simp_all add: zset_put_def)

lemma zset_at_put [simp]:
  "zset_at (zset_put r k zs) k' = (if k' = k then zs else zset_at r k')"
  by (simp add: zset_at_def zset_put_def update_conv' delete_conv')

lemma zset_put_key:
  "zs \<noteq> [] \<Longrightarrow> k \<in> set (map fst (zsets (zset_put r k zs)))"
  using update_conv' [of k zs "zsets r"] map_of_eq_None_iff [of "AList.update k zs (zsets r)" k]
  by (auto simp: zset_put_def)

lemma expiry_put:
  "zs \<noteq> [] \<Longrightarrow> expiry (zset_put r k zs) = expiry r"
  by (simp add: zset_put_def)

lemma expiry_put_other:
  "k' \<noteq> k \<Longrightarrow> expiry (zset_put r k zs) k' = expiry r k'"
  by (simp add: zset_put_def)

lemma expire_fields [simp]:
  "isConnected (expire now r k t) = isConnected r"
  "reachable (expire now r k t) = reachable r"
  "zsets (expire now r k t) = zsets r"
  "hashes (expire now r k t) = hashes r"
  by (simp_all add: expire_def)

lemma expiry_expire:
  "expiry (expire now r k t) k' =
     (if k' = k \<and> k \<in> set (map fst (zsets r)) \<union> set (map fst (hashes r))
      then Some (now + t * 1000) else expiry r k')"
  by (simp add: expire_def)

lemma zset_at_expire [simp]: "zset_at (expire now r k t) k' = zset_at r k'"
  by (simp add: zset_at_def)

lemma hGetAll_expire [simp]: "hGetAll (expire now r k t) k' = hGetAll r k'"
  by (simp add: hGetAll_def)

lemma hGetAll_put [simp]: "hGetAll (zset_put r k zs) k' = hGetAll r k'"
  by (simp add: hGetAll_def)

lemma hSet_fields [simp]:
  "isConnected (hSet r k f) = isConnected r"
  "reachable (hSet r k f) = reachable r"
  "zsets (hSet r k f) = zsets r"
  "expiry (hSet r k f) = expiry r"
  by (simp_all add: hSet_def)

lemma zset_at_hSet [simp]: "zset_at (hSet r k f) k' = zset_at r k'"
  by (simp add: zset_at_def)

lemma hGetAll_hSet [simp]:
  "hGetAll (hSet r k f) k' =
     (if k' = k then foldl (\<lambda>acc kv. AList.update (fst kv) (snd kv) acc) (hGetAll r k) f
      else hGetAll r k')"
  by (simp add: hGetAll_def hSet_def update_conv')

lemma hSet_key: "k \<in> set (map fst (hashes (hSet r k f)))"
  using update_conv' [of k _ "hashes r"] map_of_eq_None_iff [of "AList.update k _ (hashes r)" k]
  by (auto simp: hSet_def)

text \<open>The keys of the sorted sets and the keys of the hashes differ, and so do the keys
  of the sorted sets of two usernames.\<close>

lemma keys_differ: "locationKey B u \<noteq> userKey B u'"
  by (simp add: locationKey_def userKey_def keyPrefix_def)


subsection \<open>What the store does by itself\<close>

lemma map_of_filter_key:
  "map_of (filter (\<lambda>kv. P (fst kv)) xs) k = (if P k then map_of xs k else None)"
  by (induction xs) auto

lemma expireKeys_fields [simp]:
  "isConnected (expireKeys now r) = isConnected r"
  "reachable (expireKeys now r) = reachable r"
  by (simp_all add: expireKeys_def)

lemma zset_at_expireKeys:
  "zset_at (expireKeys now r) k = (if alive now r k then zset_at r k else [])"
  by (simp add: zset_at_def expireKeys_def map_of_filter_key)

lemma hGetAll_expireKeys:
  "hGetAll (expireKeys now r) k = (if alive now r k then hGetAll r k else [])"
  by (simp add: hGetAll_def expireKeys_def map_of_filter_key)

lemma expiry_expireKeys:
  "expiry (expireKeys now r) k = (if alive now r k then expiry r k else None)"
  by (simp add: expireKeys_def)

lemma expireKeys_empty [simp]: "expireKeys now (empty_store up) = empty_store up"
  by (simp add: expireKeys_def empty_store_def alive_def)

subsection \<open>An append\<close>

text \<open>The trim after an append keeps the last 100 members in the order of the set.\<close>

lemma trim_drop:
  "zRemRangeByRank zs 0 (- int maxLocationEntries - 1) = drop (length zs - 100) zs"
  by (auto simp: zRemRangeByRank_def rank_range_def maxLocationEntries_def Let_def nat_diff_distrib')

lemma zAdd_not_empty: "zAdd B zs t e \<noteq> []"
  by (simp add: zAdd_def)

lemma drop_not_empty: "xs \<noteq> [] \<Longrightarrow> drop (length xs - 100) xs \<noteq> []"
  by (cases xs) auto

lemma kept_not_empty: "drop (length (zAdd B zs t e) - 100) (zAdd B zs t e) \<noteq> []"
  using zAdd_not_empty by (rule drop_not_empty)

lemma store_not_connected:
  "\<not> isConnected r \<Longrightarrow> storeUserLocation B now r u d = (False, r)"
  by (simp add: storeUserLocation_def)

lemma store_flags [simp]:
  "isConnected (snd (storeUserLocation B now r u d)) = isConnected r"
  "reachable (snd (storeUserLocation B now r u d)) = reachable r"
  by (simp_all add: storeUserLocation_def Let_def split: option.splits)


text \<open>The sorted set after an append, also after one that the hash has stopped.\<close>

lemma store_zset:
  assumes "isConnected r" "reachable r"
  shows "zset_at (snd (storeUserLocation B now r u d)) k =
           (if k = locationKey B u
            then drop (length (zAdd B (zset_at r k) now (locationEntry B now d)) - 100)
                   (zAdd B (zset_at r k) now (locationEntry B now d))
            else zset_at r k)"
  using assms by (simp add: storeUserLocation_def Let_def trim_drop split: option.splits)

lemma store_expiry:
  assumes "isConnected r" "reachable r"
  shows "expiry (snd (storeUserLocation B now r u d)) (locationKey B u) =
           Some (now + locationTTL * 1000)"
proof -
  let ?k = "locationKey B u"
  let ?r1 = "zset_put r ?k (zAdd B (zset_at r ?k) now (locationEntry B now d))"
  let ?r2 = "zset_put ?r1 ?k (zRemRangeByRank (zset_at ?r1 ?k) 0 (- int maxLocationEntries - 1))"
  have "zRemRangeByRank (zset_at ?r1 ?k) 0 (- int maxLocationEntries - 1) \<noteq> []"
    unfolding trim_drop zset_at_put by (simp only: refl if_True) (rule kept_not_empty)
  then have "?k \<in> set (map fst (zsets ?r2))"
    by (rule zset_put_key)
  then have "expiry (expire now ?r2 ?k locationTTL) ?k = Some (now + locationTTL * 1000)"
    by (simp add: expiry_expire)
  then show ?thesis
    using assms keys_differ [of B u u]
    by (simp add: storeUserLocation_def Let_def expiry_expire split: option.splits)
qed

lemma store_hash:
  assumes "isConnected r" "reachable r"
    and "hash_text B (get_field d ''name'') = Some nm"
    and "hash_text B (lastUpdate_or_now B now d) = Some lu"
  shows "hGetAll (snd (storeUserLocation B now r u d)) k =
           (if k = userKey B u
            then AList.update ''lastUpdate'' lu (AList.update ''name'' nm (hGetAll r k))
            else hGetAll r k)"
    and "expiry (snd (storeUserLocation B now r u d)) (userKey B u) = Some (now + userTTL * 1000)"
  using assms hSet_key [of "userKey B u"]
  by (simp_all add: storeUserLocation_def Let_def expiry_expire)

text \<open>
  When the client refuses the name or the lastUpdate, the append does not complete and
  the hashes are what they were, while the sorted set has the new member.
\<close>

lemma store_refused:
  assumes "isConnected r" "reachable r"
    and "hash_text B (get_field d ''name'') = None \<or> hash_text B (lastUpdate_or_now B now d) = None"
  shows "\<not> fst (storeUserLocation B now r u d)"
    and "hGetAll (snd (storeUserLocation B now r u d)) k = hGetAll r k"
    and "expiry (snd (storeUserLocation B now r u d)) (userKey B u) = expiry r (userKey B u)"
  using assms keys_differ [of B u u] keys_differ [of B u u, symmetric]
  by (auto simp: storeUserLocation_def Let_def expiry_expire expiry_put_other split: option.splits)


subsection \<open>Reading\<close>

text \<open>With REV, the ranks 0 to -1 are the whole set from the highest score down, and
  the rank -1 is the member of the lowest score.\<close>

lemma range_all_rev:
  "opt_REV options \<Longrightarrow> zRange zs 0 (- 1) options = map fst (rev zs)"
  by (cases zs) (auto simp: zRange_def rank_range_def Let_def)

lemma range_last_rev:
  "opt_REV options \<Longrightarrow> zRange zs (- 1) (- 1) options = (case zs of [] \<Rightarrow> [] | e # rest \<Rightarrow> [fst e])"
  by (cases zs) (auto simp: zRange_def rank_range_def Let_def nat_add_distrib drop_rev)

lemma history_connected:
  "isConnected r \<Longrightarrow> reachable r \<Longrightarrow>
   getUserLocationHistory B r u st en =
     map (\<lambda>location. JObj (obj_props location)) (map fst (rev (zset_at r (locationKey B u))))"
  by (simp add: getUserLocationHistory_def range_all_rev history_options_def)

lemma latest_connected:
  "isConnected r \<Longrightarrow> reachable r \<Longrightarrow>
   getLatestUserLocation B r u =
     (case zset_at r (locationKey B u) of
        [] \<Rightarrow> JNull
      | e # rest \<Rightarrow>
          JObj (obj_spread (obj_props (fst e))
                  (map (\<lambda>kv. (fst kv, JStr (snd kv))) (hGetAll r (userKey B u)))))"
  by (simp add: getLatestUserLocation_def range_last_rev split: list.splits)

lemma locationEntry_obj: "JObj (obj_props (locationEntry B t d)) = locationEntry B t d"
  by (simp add: locationEntry_def)

subsection \<open>A run of appends\<close>



lemma insort_key_last:
  "\<forall>x\<in>set xs. f x < f a \<Longrightarrow> insort_key f a xs = xs @ [a]"
  by (induction xs) auto

lemma zAdd_newest:
  assumes "\<forall>x\<in>set zs. snd x < t" "e \<notin> fst ` set zs"
  shows "zAdd B zs t e = zs @ [(e, t)]"
proof -
  have "filter (\<lambda>x. fst x \<noteq> e) zs = zs"
    using assms(2) by (auto simp: filter_id_conv)
  moreover have "\<forall>x\<in>set zs. zkey B x < zkey B (e, t)"
    using assms(1) by (simp add: zkey_def)
  ultimately show ?thesis
    by (simp add: zAdd_def insort_key_last)
qed

lemma drop_drop_append:
  "drop (length (drop (length l - 100) l @ r) - 100) (drop (length l - 100) l @ r) =
   drop (length (l @ r) - 100) (l @ r)"
proof (cases "length l \<le> 100")
  case True
  then show ?thesis by simp
next
  case False
  then have k: "length l - 100 \<le> length l" and len: "length (drop (length l - 100) l) = 100"
    by simp_all
  have "drop (length (l @ r) - 100) (l @ r) = drop (length r + (length l - 100)) (l @ r)"
    using False by (simp add: add.commute)
  also have "\<dots> = drop (length r) (drop (length l - 100) (l @ r))"
    by (simp only: drop_drop)
  also have "\<dots> = drop (length r) (drop (length l - 100) l @ r)"
    using k by simp
  finally show ?thesis
    using len by simp
qed


text \<open>
  A run of appends for one username, at times that increase, each before the deadline
  that the append before it has set, of records that differ from each other and from
  those of the set: the set is what it was with the new members after it, cut to its
  last 100, and its deadline is that of the last append.
\<close>

lemma appendAll_zset:
  assumes "isConnected r" "reachable r"
    and "length (zset_at r (locationKey B u)) \<le> 100"
    and "sorted_wrt (<) (map fst tds)"
    and "within_ttl (map fst tds)"
    and "\<forall>x\<in>set (zset_at r (locationKey B u)). \<forall>td\<in>set tds. snd x < fst td"
    and "distinct (map fst (zset_at r (locationKey B u)) @ map (\<lambda>td. fst (entry_of B td)) tds)"
    and "zset_at r (locationKey B u) = [] \<or>
         (case tds of [] \<Rightarrow> True | td # rest \<Rightarrow> alive (fst td) r (locationKey B u))"
  shows "zset_at (appendAll B r u tds) (locationKey B u) =
           drop (length (zset_at r (locationKey B u) @ map (entry_of B) tds) - 100)
             (zset_at r (locationKey B u) @ map (entry_of B) tds) \<and>
         isConnected (appendAll B r u tds) \<and> reachable (appendAll B r u tds) \<and>
         (tds = [] \<or>
          expiry (appendAll B r u tds) (locationKey B u) = Some (fst (last tds) + locationTTL * 1000))"
  using assms
proof (induction tds arbitrary: r)
  case Nil
  then show ?case by simp
next
  case (Cons td tds)
  let ?k = "locationKey B u"
  let ?zs = "zset_at r ?k"
  let ?r0 = "expireKeys (fst td) r"
  let ?r1 = "snd (storeUserLocation B (fst td) ?r0 u (snd td))"
  have z0: "zset_at ?r0 ?k = ?zs"
    using Cons.prems(8) by (auto simp: zset_at_expireKeys)
  have c0: "isConnected ?r0" "reachable ?r0"
    using Cons.prems(1,2) by simp_all
  have add: "zAdd B ?zs (fst td) (locationEntry B (fst td) (snd td)) = ?zs @ [entry_of B td]"
    using Cons.prems(6,7) by (simp add: zAdd_newest entry_of_def)
  have z1: "zset_at ?r1 ?k = drop (length (?zs @ [entry_of B td]) - 100) (?zs @ [entry_of B td])"
    using add by (simp add: store_zset [OF c0] z0)
  have e1: "expiry ?r1 ?k = Some (fst td + locationTTL * 1000)"
    by (rule store_expiry [OF c0])
  have sub: "set (zset_at ?r1 ?k) \<subseteq> set ?zs \<union> {entry_of B td}"
    unfolding z1 using set_drop_subset [of _ "?zs @ [entry_of B td]"] by auto
  have c1: "isConnected ?r1" "reachable ?r1"
    using c0 by simp_all
  have l1: "length (zset_at ?r1 ?k) \<le> 100"
    unfolding z1 by simp
  have s1: "sorted_wrt (<) (map fst tds)"
    using Cons.prems(4) by simp
  have w1: "within_ttl (map fst tds)"
    using Cons.prems(5) by (cases tds) simp_all
  have o1: "\<forall>x\<in>set (zset_at ?r1 ?k). \<forall>td'\<in>set tds. snd x < fst td'"
  proof (intro ballI)
    fix x td'
    assume x: "x \<in> set (zset_at ?r1 ?k)" and td': "td' \<in> set tds"
    from x sub have "x \<in> set ?zs \<or> x = entry_of B td" by auto
    then show "snd x < fst td'"
    proof
      assume "x \<in> set ?zs"
      with Cons.prems(6) td' show ?thesis by simp
    next
      assume "x = entry_of B td"
      with Cons.prems(4) td' show ?thesis by (simp add: entry_of_def)
    qed
  qed
  have "distinct (map fst (?zs @ [entry_of B td]) @ map (\<lambda>td. fst (entry_of B td)) tds)"
    using Cons.prems(7) by simp
  then have d0: "distinct (map fst (?zs @ [entry_of B td]))"
    and d1: "distinct (map (\<lambda>td. fst (entry_of B td)) tds)"
    and d2: "set (map fst (?zs @ [entry_of B td])) \<inter> set (map (\<lambda>td. fst (entry_of B td)) tds) = {}"
    by (simp_all only: distinct_append)
  have "distinct (map fst (zset_at ?r1 ?k))"
    unfolding z1 drop_map [symmetric] using d0 by (rule distinct_drop)
  moreover have "set (map fst (zset_at ?r1 ?k)) \<subseteq> set (map fst (?zs @ [entry_of B td]))"
    unfolding z1 drop_map [symmetric] by (rule set_drop_subset)
  ultimately have dd: "distinct (map fst (zset_at ?r1 ?k) @ map (\<lambda>td. fst (entry_of B td)) tds)"
    using d1 d2 by (simp only: distinct_append) blast
  have a1: "zset_at ?r1 ?k = [] \<or> (case tds of [] \<Rightarrow> True | td' # rest \<Rightarrow> alive (fst td') ?r1 ?k)"
    using Cons.prems(5) by (cases tds) (simp_all add: alive_def e1)
  have IH: "zset_at (appendAll B ?r1 u tds) ?k =
          drop (length (zset_at ?r1 ?k @ map (entry_of B) tds) - 100)
            (zset_at ?r1 ?k @ map (entry_of B) tds) \<and>
         isConnected (appendAll B ?r1 u tds) \<and> reachable (appendAll B ?r1 u tds) \<and>
         (tds = [] \<or>
          expiry (appendAll B ?r1 u tds) ?k = Some (fst (last tds) + locationTTL * 1000))"
    using c1 l1 s1 w1 o1 dd a1 by (rule Cons.IH)
  have "drop (length (zset_at ?r1 ?k @ map (entry_of B) tds) - 100)
            (zset_at ?r1 ?k @ map (entry_of B) tds) =
        drop (length ((?zs @ [entry_of B td]) @ map (entry_of B) tds) - 100)
                     ((?zs @ [entry_of B td]) @ map (entry_of B) tds)"
    unfolding z1 by (rule drop_drop_append)
  with IH have zz: "zset_at (appendAll B ?r1 u tds) ?k =
          drop (length (?zs @ map (entry_of B) (td # tds)) - 100) (?zs @ map (entry_of B) (td # tds))"
    by simp
  have ee: "expiry (appendAll B ?r1 u tds) ?k = Some (fst (last (td # tds)) + locationTTL * 1000)"
    using IH e1 by (cases tds) simp_all
  show ?case
    using zz ee IH by simp
qed

lemma history_appendAll:
  assumes "isConnected r" "reachable r" "zset_at r (locationKey B u) = []"
    and "sorted_wrt (<) (map fst tds)"
    and "within_ttl (map fst tds)"
    and "distinct (map (\<lambda>td. locationEntry B (fst td) (snd td)) tds)"
  shows "getUserLocationHistory B (appendAll B r u tds) u st en =
           rev (map (\<lambda>td. locationEntry B (fst td) (snd td)) (drop (length tds - 100) tds))"
    and "tds \<noteq> [] \<Longrightarrow> tr < fst (last tds) + locationTTL * 1000 \<Longrightarrow>
         getUserLocationHistory B (expireKeys tr (appendAll B r u tds)) u st en =
           rev (map (\<lambda>td. locationEntry B (fst td) (snd td)) (drop (length tds - 100) tds))"
proof -
  have all: "zset_at (appendAll B r u tds) (locationKey B u) =
               drop (length tds - 100) (map (entry_of B) tds) \<and>
             isConnected (appendAll B r u tds) \<and> reachable (appendAll B r u tds) \<and>
             (tds = [] \<or>
              expiry (appendAll B r u tds) (locationKey B u) =
                Some (fst (last tds) + locationTTL * 1000))"
    using appendAll_zset [of r B u tds] assms by (simp add: entry_of_def)
  then show "getUserLocationHistory B (appendAll B r u tds) u st en =
           rev (map (\<lambda>td. locationEntry B (fst td) (snd td)) (drop (length tds - 100) tds))"
    by (simp add: history_connected rev_map drop_map entry_of_def locationEntry_obj o_def)
  assume "tds \<noteq> []" "tr < fst (last tds) + locationTTL * 1000"
  with all have "alive tr (appendAll B r u tds) (locationKey B u)"
    by (simp add: alive_def)
  with all show "getUserLocationHistory B (expireKeys tr (appendAll B r u tds)) u st en =
           rev (map (\<lambda>td. locationEntry B (fst td) (snd td)) (drop (length tds - 100) tds))"
    by (simp add: history_connected zset_at_expireKeys rev_map drop_map entry_of_def
        locationEntry_obj o_def)
qed

section \<open>Evaluating the scenarios\<close>

lemma keys_alice [simp]:
  "locationKey B (JStr nm) = ''location_share:locations:'' @ nm"
  "userKey B (JStr nm) = ''location_share:user:'' @ nm"
  by (simp_all add: locationKey_def userKey_def keyPrefix_def template_text_def)

lemma locationEntry_update_data:
  "locationEntry B now (update_data nm (Fin la) (Fin lo)) =
     JObj [(''latitude'', JNum (Fin la)), (''longitude'', JNum (Fin lo)), (''name'', JStr nm),
           (''lastUpdate'', JStr (toISOString B now))]"
  by (simp add: locationEntry_def lastUpdate_or_now_def)

lemma zset_at_empty [simp]: "zset_at (empty_store up) k = []"
  by (simp add: zset_at_def)

lemma hGetAll_empty [simp]: "hGetAll (empty_store up) k = []"
  by (simp add: hGetAll_def)

lemma obj_spread_Nil [simp]: "obj_spread a [] = a"
  by (simp add: obj_spread_def)

lemma obj_spread_Cons [simp]: "obj_spread a (kv # b) = obj_spread (AList.update (fst kv) (snd kv) a) b"
  by (simp add: obj_spread_def)

lemma crowd_length [simp]: "length (crowd n) = n"
  by (simp add: crowd_def)

lemma crowd_no_alice [simp]: "map_of (crowd n) (JStr ''alice'') = None"
  by (auto simp: crowd_def map_of_eq_None_iff)

lemma accepted_started:
  "accepted builtins_at_instants now (started up) (update_data ''alice'' (Fin 1) (Fin 2))"
  by (simp add: accepted_def validate_update_data isRateLimited_def maxUsers_def)

lemma not_accepted_91:
  "\<not> accepted builtins_at_instants now s (update_data ''alice'' (Fin 91) (Fin 2))"
  by (simp add: accepted_def validateLocationData_def latitude_rejected_def maxNameLength_def)

section \<open>Disconnecting\<close>

lemma handleUserDisconnect_fields:
  "users (handleUserDisconnect s n) =
     (if (case map_of (users s) n of Some user \<Rightarrow> truthy user | None \<Rightarrow> False)
      then AList.delete n (users s) else users s)"
  "connections (handleUserDisconnect s n) =
     (if (case map_of (users s) n of Some user \<Rightarrow> truthy user | None \<Rightarrow> False)
      then AList.delete n (connections s) else connections s)"
  "userRateLimit (handleUserDisconnect s n) =
     (if (case map_of (users s) n of Some user \<Rightarrow> truthy user | None \<Rightarrow> False)
      then AList.delete n (userRateLimit s) else userRateLimit s)"
  "sockets (handleUserDisconnect s n) = sockets s"
  "redis (handleUserDisconnect s n) = redis s"
  by (simp_all add: handleUserDisconnect_def split: option.splits)

lemma handleUserDisconnect_absent:
  "map_of (users s) n = None \<Longrightarrow> handleUserDisconnect s n = s"
  by (simp add: handleUserDisconnect_def)

lemma disconnect_own:
  assumes "truthy n" "strict_equals (username (sockets s ws)) n"
    and "map_of (users s) n = Some user" "truthy user"
  shows "users (handleUserDisconnectRequest s ws (JObj [(''name'', n)])) = AList.delete n (users s)"
    and "connections (handleUserDisconnectRequest s ws (JObj [(''name'', n)])) = AList.delete n (connections s)"
    and "userRateLimit (handleUserDisconnectRequest s ws (JObj [(''name'', n)])) = AList.delete n (userRateLimit s)"
    and "redis (handleUserDisconnectRequest s ws (JObj [(''name'', n)])) = redis s"
    and "isClosed (sockets (handleUserDisconnectRequest s ws (JObj [(''name'', n)])) w) =
           (if w = ws then True else isClosed (sockets s w))"
    and "outbox (sockets (handleUserDisconnectRequest s ws (JObj [(''name'', n)])) w) = outbox (sockets s w)"
proof -
  have eq: "username (sockets s ws) = n"
    using assms(2) by (auto simp: strict_equals_def split: jsval.splits jsnum.splits)
  have gone: "map_of (AList.delete n (users s)) n = None"
    by (simp add: delete_conv')
  let ?s1 = "handleUserDisconnect s n"
  let ?s2 = "?s1\<lparr>sockets := (sockets ?s1)(ws := (sockets ?s1 ws)\<lparr>isClosed := True\<rparr>)\<rparr>"
  have u2: "map_of (users ?s2) n = None"
    using assms(3,4) gone by (simp add: handleUserDisconnect_fields)
  have "handleUserDisconnectRequest s ws (JObj [(''name'', n)]) = handleUserDisconnect ?s2 n"
    using assms(1,2) eq by (simp add: handleUserDisconnectRequest_def ws_close_def onClose_def
        handleUserDisconnect_fields)
  also have "\<dots> = ?s2"
    using u2 by (rule handleUserDisconnect_absent)
  finally have req: "handleUserDisconnectRequest s ws (JObj [(''name'', n)]) = ?s2" .
  show "users (handleUserDisconnectRequest s ws (JObj [(''name'', n)])) = AList.delete n (users s)"
    and "connections (handleUserDisconnectRequest s ws (JObj [(''name'', n)])) = AList.delete n (connections s)"
    and "userRateLimit (handleUserDisconnectRequest s ws (JObj [(''name'', n)])) = AList.delete n (userRateLimit s)"
    and "redis (handleUserDisconnectRequest s ws (JObj [(''name'', n)])) = redis s"
    and "isClosed (sockets (handleUserDisconnectRequest s ws (JObj [(''name'', n)])) w) =
           (if w = ws then True else isClosed (sockets s w))"
    and "outbox (sockets (handleUserDisconnectRequest s ws (JObj [(''name'', n)])) w) = outbox (sockets s w)"
    unfolding req using assms(3,4) by (simp_all add: handleUserDisconnect_fields)
qed

lemma handleMessage_disconnect:
  "truthy n \<Longrightarrow>
   handleMessage B now s ws (message_of ''user_disconnect'' (JObj [(''name'', n)])) =
   handleUserDisconnectRequest s ws (JObj [(''name'', n)])"
  by (simp add: handleMessage_def message_of_def)

section \<open>The rate limit\<close>

lemma isRateLimited_iff:
  "isRateLimited s now n =
     (case map_of (userRateLimit s) n of None \<Rightarrow> False | Some t \<Rightarrow> t \<noteq> 0 \<and> now - t < 2000)"
  by (auto simp add: isRateLimited_def locationUpdateInterval_def split: option.splits)

lemma with_reply_inject:
  "with_reply s ws m = with_reply s ws m' \<Longrightarrow> m = m'"
proof -
  assume "with_reply s ws m = with_reply s ws m'"
  then have "outbox (sockets (with_reply s ws m) ws) = outbox (sockets (with_reply s ws m') ws)"
    by simp
  then show ?thesis by simp
qed

lemma accepted_no_error_reply:
  assumes "accepted B now s d" "\<not> isClosed (sockets s ws)"
  shows "handleLocationUpdate B now s ws d \<noteq> with_reply s ws (ErrorMsg code)"
proof
  assume "handleLocationUpdate B now s ws d = with_reply s ws (ErrorMsg code)"
  then have "outbox (sockets (handleLocationUpdate B now s ws d) ws) =
             outbox (sockets (with_reply s ws (ErrorMsg code)) ws)"
    by simp
  then have "replicate
               (length (filter (\<lambda>c. fst c \<noteq> get_field d ''name'' \<and> snd c = ws)
                          (AList.update (get_field d ''name'') ws (connections s))))
               (UserLocation (userData B now d)) = [ErrorMsg code]"
    using assms by (simp add: accepted_fields)
  then show False
    by (cases "length (filter (\<lambda>c. fst c \<noteq> get_field d ''name'' \<and> snd c = ws)
                          (AList.update (get_field d ''name'') ws (connections s)))") simp_all
qed

lemma rate_limited_reply_iff:
  assumes "\<not> isClosed (sockets s ws)"
  shows "handleLocationUpdate B now s ws d = with_reply s ws (ErrorMsg ''RATE_LIMITED'') \<longleftrightarrow>
         validateLocationData B now d = Valid \<and> isRateLimited s now (get_field d ''name'')"
proof (cases "accepted B now s d")
  case True
  then show ?thesis
    using accepted_no_error_reply [OF True assms] by (simp add: accepted_def)
next
  case False
  show ?thesis
  proof (cases "validateLocationData B now d")
    case Valid
    then show ?thesis
      using assms False with_reply_inject [of s ws "ErrorMsg ''USER_LIMIT_EXCEEDED''" "ErrorMsg ''RATE_LIMITED''"]
      by (auto simp: handleLocationUpdate_not_accepted sendError_open)
  next
    case (Invalid code)
    then show ?thesis
      using assms False invalid_codes [OF Invalid] with_reply_inject [of s ws "ErrorMsg code" "ErrorMsg ''RATE_LIMITED''"]
      by (auto simp: handleLocationUpdate_not_accepted sendError_open)
  qed
qed

section \<open>The list of users\<close>

lemma getAll_resolves: "getAllUsersWithLocations B r \<noteq> Rejected err"
  by (simp add: getAllUsersWithLocations_def)

lemma getAll_degraded:
  "\<not> isConnected r \<Longrightarrow> getAllUsersWithLocations B r = Resolved []"
  by (simp add: getAllUsersWithLocations_def)

lemma sendUsersList_degraded:
  "\<not> isConnected (redis s) \<Longrightarrow> sendUsersList B s ws = sendMessage s ws (UsersList [])"
  by (simp add: sendUsersList_def getAll_degraded)

lemma handleMessage_get_users:
  "handleMessage B now s ws (message_of ''get_users'' (JObj [])) = sendUsersList B s ws"
  by (simp add: handleMessage_def message_of_def)

lemma store_zsets:
  "isConnected r \<Longrightarrow> reachable r \<Longrightarrow>
   zsets (snd (storeUserLocation B now r u d)) =
     zsets (zset_put (zset_put r (locationKey B u)
                        (zAdd B (zset_at r (locationKey B u)) now (locationEntry B now d)))
              (locationKey B u)
              (drop (length (zAdd B (zset_at r (locationKey B u)) now (locationEntry B now d)) - 100)
                 (zAdd B (zset_at r (locationKey B u)) now (locationEntry B now d))))"
  by (simp add: storeUserLocation_def Let_def trim_drop split: option.splits)

lemma zsets_first_append:
  "zsets (snd (storeUserLocation B now (empty_store True) (JStr nm) d)) =
     [(''location_share:locations:'' @ nm, [(locationEntry B now d, now)])]"
  by (simp add: store_zsets zset_put_def zAdd_def)

lemma userData_fields [simp]:
  "get_field (userData B now d) ''name'' = get_field d ''name''"
  "get_field (userData B now d) ''latitude'' = get_field d ''latitude''"
  "get_field (userData B now d) ''longitude'' = get_field d ''longitude''"
  "get_field (userData B now d) ''lastUpdate'' = lastUpdate_or_now B now d"
  by (simp_all add: userData_def)

section \<open>The claims\<close>

text \<open>
  C1. The claim: with the store unreachable, an update still succeeds and \<open>get_users\<close> is
  answered from the users in memory. The first half holds: with the store not connected,
  bob's and then alice's update are accepted and bob's connection receives alice's
  location. The second does not: \<^verbatim>\<open>getAllUsersWithLocations\<close> resolves to the empty
  list instead of rejecting, so the \<^verbatim>\<open>catch\<close> of \<^verbatim>\<open>sendUsersList\<close> that would send the
  users in memory never runs, and alice's request is answered with an empty users_list
  while both users are in memory.
\<close>

theorem C1_degraded_users_list_is_empty:
  "(let s1 = handleMessage builtins_at_instants 1700000000000 (started False) 3
               (message_of ''location_update'' (update_data ''bob'' (Fin 1) (Fin 2)));
        s2 = handleMessage builtins_at_instants 1700000000100 s1 2
               (message_of ''location_update'' (update_data ''alice'' (Fin 3) (Fin 4)));
        s3 = handleMessage builtins_at_instants 1700000000500 s2 2
               (message_of ''get_users'' (JObj []))
    in \<not> isConnected (redis s2) \<and>
       map fst (users s2) = [JStr ''bob'', JStr ''alice''] \<and>
       map fst (connections s2) = [JStr ''bob'', JStr ''alice''] \<and>
       outbox (sockets s2 3) =
         [UserLocation (JObj [(''name'', JStr ''alice''), (''latitude'', JNum (Fin 3)),
                              (''longitude'', JNum (Fin 4)),
                              (''lastUpdate'', JStr ''2023-11-14T22:13:20.100Z'')])] \<and>
       users s3 = users s2 \<and>
       outbox (sockets s3 2) = [UsersList []])"
proof -
  let ?B = builtins_at_instants
  let ?dB = "update_data ''bob'' (Fin 1) (Fin 2)"
  let ?dA = "update_data ''alice'' (Fin 3) (Fin 4)"
  define s1 where "s1 = handleLocationUpdate ?B 1700000000000 (started False) 3 ?dB"
  define s2 where "s2 = handleLocationUpdate ?B 1700000000100 s1 2 ?dA"
  define s3 where "s3 = sendUsersList ?B s2 2"
  have a1: "accepted ?B 1700000000000 (started False) ?dB"
    by (simp add: accepted_def validate_update_data isRateLimited_iff maxUsers_def)
  have r1: "userRateLimit s1 = [(JStr ''bob'', 1700000000000)]"
    and u1: "map fst (users s1) = [JStr ''bob'']"
    and c1: "connections s1 = [(JStr ''bob'', 3)]"
    and d1: "\<not> isConnected (redis s1)"
    and o1: "outbox (sockets s1 3) = []" "isClosed (sockets s1 3) = False"
      "outbox (sockets s1 2) = []" "isClosed (sockets s1 2) = False"
    unfolding s1_def by (simp_all add: accepted_fields [OF a1] store_not_connected)
  have m1: "map_of (users s1) (JStr ''alice'') = None" "length (users s1) = 1"
    using u1 by (simp_all add: map_of_eq_None_iff flip: length_map [of fst "users s1"] set_map)
  have a2: "accepted ?B 1700000000100 s1 ?dA"
    by (simp add: accepted_def validate_update_data isRateLimited_iff r1 m1 maxUsers_def)
  have u2: "map fst (users s2) = [JStr ''bob'', JStr ''alice'']"
    unfolding s2_def accepted_fields [OF a2]
    using u1 m1(1) by (cases "users s1") (auto simp: userData_update_data)
  have c2: "map fst (connections s2) = [JStr ''bob'', JStr ''alice'']"
    and d2: "\<not> isConnected (redis s2)"
    and o2: "outbox (sockets s2 3) = [UserLocation (userData ?B 1700000000100 ?dA)]"
      "outbox (sockets s2 2) = []" "isClosed (sockets s2 2) = False"
    unfolding s2_def accepted_fields [OF a2]
    using d1 by (simp_all add: c1 o1 store_not_connected)
  have s3: "users s3 = users s2" "outbox (sockets s3 2) = [UsersList []]"
    unfolding s3_def sendUsersList_degraded [OF d2] by (simp_all add: sendMessage_outbox o2)
  show ?thesis
    unfolding Let_def handleMessage_update handleMessage_get_users
    using d2 u2 c2 o2 s3 by (simp add: s1_def s2_def s3_def userData_update_data)
qed

text \<open>
  C2. The claim: \<open>latest\<close> returns the record of the greatest score. The service asks for
  the rank -1 with REV, which is the member of the lowest score: after two appends for
  alice, \<^verbatim>\<open>getLatestUserLocation\<close> returns the coordinates of the first, older record,
  under the name and lastUpdate of the metadata, which the second append wrote.
\<close>

theorem C2_latest_is_oldest_record:
  "getLatestUserLocation builtins_at_instants
     (appendAll builtins_at_instants (empty_store True) (JStr ''alice'')
        [(1700000000000, update_data ''alice'' (Fin 1) (Fin 2)),
         (1700000002000, update_data ''alice'' (Fin 3) (Fin 4))])
     (JStr ''alice'') =
   JObj [(''latitude'', JNum (Fin 1)), (''longitude'', JNum (Fin 2)), (''name'', JStr ''alice''),
         (''lastUpdate'', JStr ''2023-11-14T22:13:22.000Z'')]"
proof -
  let ?B = builtins_at_instants
  let ?d1 = "update_data ''alice'' (Fin 1) (Fin 2)"
  let ?d2 = "update_data ''alice'' (Fin 3) (Fin 4)"
  let ?tds = "[(1700000000000::int, ?d1), (1700000002000, ?d2)]"
  let ?r = "appendAll ?B (empty_store True) (JStr ''alice'') ?tds"
  define r1 where "r1 = snd (storeUserLocation ?B 1700000000000 (empty_store True) (JStr ''alice'') ?d1)"
  have run: "zset_at ?r (locationKey ?B (JStr ''alice'')) =
               drop (length (zset_at (empty_store True) (locationKey ?B (JStr ''alice'')) @
                       map (entry_of ?B) ?tds) - 100)
                 (zset_at (empty_store True) (locationKey ?B (JStr ''alice'')) @ map (entry_of ?B) ?tds) \<and>
             isConnected ?r \<and> reachable ?r \<and>
             (?tds = [] \<or>
              expiry ?r (locationKey ?B (JStr ''alice'')) = Some (fst (last ?tds) + locationTTL * 1000))"
    by (rule appendAll_zset)
      (simp_all add: entry_of_def locationEntry_update_data locationTTL_def)
  have c: "isConnected ?r" "reachable ?r"
    using run by blast+
  have z: "zset_at ?r (locationKey ?B (JStr ''alice'')) = map (entry_of ?B) ?tds"
    using run [THEN conjunct1] by simp
  have e: "?r = snd (storeUserLocation ?B 1700000002000 (expireKeys 1700000002000 r1) (JStr ''alice'') ?d2)"
    by (simp add: r1_def)
  have t1: "hash_text ?B (get_field ?d1 ''name'') = Some ''alice''"
    "hash_text ?B (lastUpdate_or_now ?B 1700000000000 ?d1) = Some ''2023-11-14T22:13:20.000Z''"
    by (simp_all add: hash_text_def lastUpdate_or_now_def)
  have t2: "hash_text ?B (get_field ?d2 ''name'') = Some ''alice''"
    "hash_text ?B (lastUpdate_or_now ?B 1700000002000 ?d2) = Some ''2023-11-14T22:13:22.000Z''"
    by (simp_all add: hash_text_def lastUpdate_or_now_def)
  have c0: "isConnected (empty_store True)" "reachable (empty_store True)"
    by simp_all
  have c1: "isConnected (expireKeys 1700000002000 r1)" "reachable (expireKeys 1700000002000 r1)"
    by (simp_all add: r1_def)
  have h1: "hGetAll r1 (userKey ?B (JStr ''alice'')) =
              [(''name'', ''alice''), (''lastUpdate'', ''2023-11-14T22:13:20.000Z'')]"
    unfolding r1_def store_hash(1) [OF c0 t1] by simp
  have h: "hGetAll ?r (userKey ?B (JStr ''alice'')) =
             [(''name'', ''alice''), (''lastUpdate'', ''2023-11-14T22:13:22.000Z'')]"
    unfolding e store_hash(1) [OF c1 t2] using h1 by (simp add: hGetAll_expireKeys)
  show ?thesis
    unfolding latest_connected [OF c] z h
    by (simp add: entry_of_def locationEntry_update_data)
qed

text \<open>
  C3. The claim: with both bounds given, \<open>history\<close> returns the records whose score lies
  between them. The options BYSCORE, MIN and MAX that the service sets do not reach the
  command: of three records at 22:13:20.000, 22:13:20.500 and 22:13:22.000, a request
  for the interval from 22:13:20.100 to 22:13:20.500 returns all three, newest first.
\<close>

theorem C3_history_ignores_bounds:
  "getUserLocationHistory builtins_at_instants
     (appendAll builtins_at_instants (empty_store True) (JStr ''alice'')
        [(1700000000000, update_data ''alice'' (Fin 1) (Fin 2)),
         (1700000000500, update_data ''alice'' (Fin 3) (Fin 4)),
         (1700000002000, update_data ''alice'' (Fin 5) (Fin 6))])
     (JStr ''alice'')
     (history_bound builtins_at_instants (JStr ''2023-11-14T22:13:20.100Z''))
     (history_bound builtins_at_instants (JStr ''2023-11-14T22:13:20.500Z'')) =
   [JObj [(''latitude'', JNum (Fin 5)), (''longitude'', JNum (Fin 6)), (''name'', JStr ''alice''),
          (''lastUpdate'', JStr ''2023-11-14T22:13:22.000Z'')],
    JObj [(''latitude'', JNum (Fin 3)), (''longitude'', JNum (Fin 4)), (''name'', JStr ''alice''),
          (''lastUpdate'', JStr ''2023-11-14T22:13:20.500Z'')],
    JObj [(''latitude'', JNum (Fin 1)), (''longitude'', JNum (Fin 2)), (''name'', JStr ''alice''),
          (''lastUpdate'', JStr ''2023-11-14T22:13:20.000Z'')]] \<and>
   history_bound builtins_at_instants (JStr ''2023-11-14T22:13:20.100Z'') = JNum (Fin 1700000000100) \<and>
   history_bound builtins_at_instants (JStr ''2023-11-14T22:13:20.500Z'') = JNum (Fin 1700000000500)"
proof -
  let ?B = builtins_at_instants
  let ?tds = "[(1700000000000::int, update_data ''alice'' (Fin 1) (Fin 2)),
               (1700000000500, update_data ''alice'' (Fin 3) (Fin 4)),
               (1700000002000, update_data ''alice'' (Fin 5) (Fin 6))]"
  have b: "history_bound ?B (JStr ''2023-11-14T22:13:20.100Z'') = JNum (Fin 1700000000100)"
    "history_bound ?B (JStr ''2023-11-14T22:13:20.500Z'') = JNum (Fin 1700000000500)"
    by (simp_all add: history_bound_def builtins_at_instants_def instants_def)
  have "getUserLocationHistory ?B (appendAll ?B (empty_store True) (JStr ''alice'') ?tds) (JStr ''alice'')
          (history_bound ?B (JStr ''2023-11-14T22:13:20.100Z''))
          (history_bound ?B (JStr ''2023-11-14T22:13:20.500Z'')) =
        rev (map (\<lambda>td. locationEntry ?B (fst td) (snd td)) (drop (length ?tds - 100) ?tds))"
    by (rule history_appendAll(1)) (simp_all add: locationEntry_update_data locationTTL_def)
  then show ?thesis
    using b by (simp add: locationEntry_update_data)
qed



text \<open>
  C5, as amended. An accepted update sets the username of its connection to the name it
  carries, and an update that is not accepted leaves the username as it was. So the
  username of a connection stays what the first accepted update made it for as long as
  the accepted updates on it carry the same name, and changes with the first that carries
  another.
\<close>

theorem C5_username_follows_update:
  "(accepted B now s d \<longrightarrow>
      username (sockets (handleLocationUpdate B now s ws d) ws) = get_field d ''name'') \<and>
   (\<not> accepted B now s d \<longrightarrow>
      username (sockets (handleLocationUpdate B now s ws d) ws) = username (sockets s ws))"
  by (simp add: accepted_fields handleLocationUpdate_not_accepted sendError_def)

theorem C5_username_follows_update_witness:
  "accepted builtins_at_instants 1700000000000 (started False) (update_data ''alice'' (Fin 1) (Fin 2)) \<and>
   username (sockets (handleLocationUpdate builtins_at_instants 1700000000000 (started False) 1
                        (update_data ''alice'' (Fin 1) (Fin 2))) 1) = JStr ''alice'' \<and>
   \<not> accepted builtins_at_instants 1700000000000 (started False) (update_data ''alice'' (Fin 91) (Fin 2)) \<and>
   username (sockets (handleLocationUpdate builtins_at_instants 1700000000000 (started False) 1
                        (update_data ''alice'' (Fin 91) (Fin 2))) 1) = JNull"
  using C5_username_follows_update [of builtins_at_instants 1700000000000 "started False" "update_data ''alice'' (Fin 1) (Fin 2)" 1]
    C5_username_follows_update [of builtins_at_instants 1700000000000 "started False" "update_data ''alice'' (Fin 91) (Fin 2)" 1]
    accepted_started [of 1700000000000 False] not_accepted_91 [of 1700000000000 "started False"]
  by simp

text \<open>
  C5 as it is stated fails: on one connection an accepted update for alice and then an
  accepted update for bob leave the connection bound to bob.
\<close>

theorem C5_username_changes_counterexample:
  "(let s1 = handleMessage builtins_at_instants 1700000000000 (started False) 1
               (message_of ''location_update'' (update_data ''alice'' (Fin 1) (Fin 2)));
        s2 = handleMessage builtins_at_instants 1700000000100 s1 1
               (message_of ''location_update'' (update_data ''bob'' (Fin 3) (Fin 4)))
    in accepted builtins_at_instants 1700000000000 (started False) (update_data ''alice'' (Fin 1) (Fin 2)) \<and>
       accepted builtins_at_instants 1700000000100 s1 (update_data ''bob'' (Fin 3) (Fin 4)) \<and>
       username (sockets s1 1) = JStr ''alice'' \<and>
       username (sockets s2 1) = JStr ''bob'')"
proof -
  let ?B = builtins_at_instants
  let ?dA = "update_data ''alice'' (Fin 1) (Fin 2)"
  let ?dB = "update_data ''bob'' (Fin 3) (Fin 4)"
  define s1 where "s1 = handleLocationUpdate ?B 1700000000000 (started False) 1 ?dA"
  define s2 where "s2 = handleLocationUpdate ?B 1700000000100 s1 1 ?dB"
  have a1: "accepted ?B 1700000000000 (started False) ?dA"
    by (rule accepted_started)
  have r1: "userRateLimit s1 = [(JStr ''alice'', 1700000000000)]"
    and u1: "length (users s1) = 1"
    and n1: "username (sockets s1 1) = JStr ''alice''"
    unfolding s1_def by (simp_all add: accepted_fields [OF a1])
  have a2: "accepted ?B 1700000000100 s1 ?dB"
    by (simp add: accepted_def validate_update_data isRateLimited_def r1 u1 maxUsers_def)
  have n2: "username (sockets s2 1) = JStr ''bob''"
    unfolding s2_def by (simp add: accepted_fields [OF a2])
  show ?thesis
    unfolding Let_def handleMessage_update
    using a1 a2 n1 n2 by (simp add: s1_def s2_def)
qed

text \<open>
  C6. The claim: the user limit and the connectedUsers of the health query count the
  usernames bound to a live connection. \<^verbatim>\<open>loadUsersFromRedis\<close> puts the users of the
  store into the users map with no connection, and the limit and the health query read
  the size of that map: after the load of a store that holds bob, connectedUsers is 1
  with no connection at all, and with 100 such users in the map and no connection the
  first update of alice is answered with USER_LIMIT_EXCEEDED.
\<close>

theorem C6_loaded_users_are_counted:
  "(let r = appendAll builtins_at_instants (empty_store True) (JStr ''bob'')
              [(1700000000000, update_data ''bob'' (Fin 1) (Fin 2))];
        s = loadUsersFromRedis builtins_at_instants ((started True)\<lparr>redis := r\<rparr>)
    in users s = [(JStr ''bob'',
                   JObj [(''latitude'', JNum (Fin 1)), (''longitude'', JNum (Fin 2)),
                         (''name'', JStr ''bob''), (''lastUpdate'', JStr ''2023-11-14T22:13:20.000Z'')])] \<and>
       connections s = [] \<and>
       health s = (1, True)) \<and>
   connections ((started True)\<lparr>users := crowd 100\<rparr>) = [] \<and>
   handleLocationUpdate builtins_at_instants 1700000000000 ((started True)\<lparr>users := crowd 100\<rparr>) 2
     (update_data ''alice'' (Fin 1) (Fin 2)) =
   with_reply ((started True)\<lparr>users := crowd 100\<rparr>) 2 (ErrorMsg ''USER_LIMIT_EXCEEDED'')"
proof -
  let ?B = builtins_at_instants
  let ?dB = "update_data ''bob'' (Fin 1) (Fin 2)"
  let ?dA = "update_data ''alice'' (Fin 1) (Fin 2)"
  let ?r = "snd (storeUserLocation ?B 1700000000000 (empty_store True) (JStr ''bob'') ?dB)"
  let ?bob = "JObj [(''latitude'', JNum (Fin 1)), (''longitude'', JNum (Fin 2)),
                    (''name'', JStr ''bob''), (''lastUpdate'', JStr ''2023-11-14T22:13:20.000Z'')]"
  have c0: "isConnected (empty_store True)" "reachable (empty_store True)"
    by simp_all
  have t: "hash_text ?B (get_field ?dB ''name'') = Some ''bob''"
    "hash_text ?B (lastUpdate_or_now ?B 1700000000000 ?dB) = Some ''2023-11-14T22:13:20.000Z''"
    by (simp_all add: hash_text_def lastUpdate_or_now_def)
  have c: "isConnected ?r" "reachable ?r"
    by simp_all
  have keys: "locationKeys ?r = [''location_share:locations:bob'']"
    by (simp add: locationKeys_def zsets_first_append keyPrefix_def)
  have latest: "getLatestUserLocation ?B ?r (JStr ''bob'') = ?bob"
    unfolding latest_connected [OF c] store_zset [OF c0] store_hash(1) [OF c0 t]
    by (simp add: zAdd_def locationEntry_update_data)
  have all: "getAllUsersWithLocations ?B ?r = Resolved [?bob]"
    using c by (simp add: getAllUsersWithLocations_def keys keyPrefix_def latest)
  have load: "users (loadUsersFromRedis ?B ((started True)\<lparr>redis := ?r\<rparr>)) = [(JStr ''bob'', ?bob)]"
    "connections (loadUsersFromRedis ?B ((started True)\<lparr>redis := ?r\<rparr>)) = []"
    "isConnected (redis (loadUsersFromRedis ?B ((started True)\<lparr>redis := ?r\<rparr>)))"
    using c by (simp_all add: loadUsersFromRedis_def all)
  let ?sc = "(started True)\<lparr>users := crowd 100\<rparr>"
  have "\<not> accepted ?B 1700000000000 ?sc ?dA"
    by (simp add: accepted_def maxUsers_def)
  then have full: "handleLocationUpdate ?B 1700000000000 ?sc 2 ?dA =
                     with_reply ?sc 2 (ErrorMsg ''USER_LIMIT_EXCEEDED'')"
    by (simp add: handleLocationUpdate_not_accepted validate_update_data isRateLimited_iff
        sendError_open)
  show ?thesis
    using load full by (simp add: Let_def health_def)
qed




text \<open>
  C8, as amended. On an open connection an update is answered with RATE_LIMITED exactly
  when it passes validation and the rate-limit map holds for its username a time other
  than 0 that is less than 2000 ms before the clock; with no entry it is never rate
  limited. An accepted update records the clock as the entry of its username, and
  removing the user (disconnect, close, sweep) deletes the entry. So an accepted update
  comes at least 2000 ms after the entry it finds, and a valid update for the same
  username 500 ms after an accepted one, with the entry still there, is answered with
  RATE_LIMITED.
\<close>

theorem C8_rate_limit_while_entry_kept:
  "(\<not> isClosed (sockets s ws) \<longrightarrow>
      (handleLocationUpdate B now s ws d = with_reply s ws (ErrorMsg ''RATE_LIMITED'') \<longleftrightarrow>
         validateLocationData B now d = Valid \<and>
         (case map_of (userRateLimit s) (get_field d ''name'') of
            None \<Rightarrow> False
          | Some t \<Rightarrow> t \<noteq> 0 \<and> now - t < 2000))) \<and>
   (map_of (userRateLimit s) (get_field d ''name'') = None \<longrightarrow>
      \<not> isRateLimited s now (get_field d ''name'')) \<and>
   (accepted B now s d \<longrightarrow>
      map_of (userRateLimit (handleLocationUpdate B now s ws d)) (get_field d ''name'') = Some now) \<and>
   (accepted B now s d \<and> map_of (userRateLimit s) (get_field d ''name'') = Some t \<and> t \<noteq> 0 \<longrightarrow>
      now - t \<ge> 2000) \<and>
   (accepted B now s d \<and> now \<noteq> 0 \<and> validateLocationData B (now + 500) d' = Valid \<and>
    get_field d' ''name'' = get_field d ''name'' \<and> \<not> isClosed (sockets s ws') \<longrightarrow>
      handleLocationUpdate B (now + 500) (handleLocationUpdate B now s ws d) ws' d' =
        with_reply (handleLocationUpdate B now s ws d) ws' (ErrorMsg ''RATE_LIMITED'')) \<and>
   (map_of (users s) n = Some user \<and> truthy user \<longrightarrow>
      map_of (userRateLimit (handleUserDisconnect s n)) n = None)"
proof (intro conjI impI)
  assume "\<not> isClosed (sockets s ws)"
  then show "handleLocationUpdate B now s ws d = with_reply s ws (ErrorMsg ''RATE_LIMITED'') \<longleftrightarrow>
         validateLocationData B now d = Valid \<and>
         (case map_of (userRateLimit s) (get_field d ''name'') of
            None \<Rightarrow> False
          | Some t \<Rightarrow> t \<noteq> 0 \<and> now - t < 2000)"
    by (simp add: rate_limited_reply_iff isRateLimited_iff)
next
  assume "map_of (userRateLimit s) (get_field d ''name'') = None"
  then show "\<not> isRateLimited s now (get_field d ''name'')"
    by (simp add: isRateLimited_iff)
next
  assume "accepted B now s d"
  then show "map_of (userRateLimit (handleLocationUpdate B now s ws d)) (get_field d ''name'') = Some now"
    by (simp add: accepted_fields update_conv')
next
  assume "accepted B now s d \<and> map_of (userRateLimit s) (get_field d ''name'') = Some t \<and> t \<noteq> 0"
  then show "2000 \<le> now - t"
    by (auto simp add: accepted_def isRateLimited_iff)
next
  assume a: "accepted B now s d \<and> now \<noteq> 0 \<and> validateLocationData B (now + 500) d' = Valid \<and>
    get_field d' ''name'' = get_field d ''name'' \<and> \<not> isClosed (sockets s ws')"
  then have acc: "accepted B now s d" by simp
  have "isRateLimited (handleLocationUpdate B now s ws d) (now + 500) (get_field d' ''name'')"
    using a by (simp add: isRateLimited_iff accepted_fields [OF acc] update_conv')
  moreover have "\<not> isClosed (sockets (handleLocationUpdate B now s ws d) ws')"
    using a by (simp add: accepted_fields [OF acc])
  ultimately show "handleLocationUpdate B (now + 500) (handleLocationUpdate B now s ws d) ws' d' =
        with_reply (handleLocationUpdate B now s ws d) ws' (ErrorMsg ''RATE_LIMITED'')"
    using a by (simp add: rate_limited_reply_iff)
next
  assume "map_of (users s) n = Some user \<and> truthy user"
  then show "map_of (userRateLimit (handleUserDisconnect s n)) n = None"
    by (simp add: handleUserDisconnect_fields delete_conv')
qed

theorem C8_rate_limit_while_entry_kept_witness:
  "accepted builtins_at_instants 1700000000000 (started False) (update_data ''alice'' (Fin 1) (Fin 2)) \<and>
   map_of (userRateLimit (handleLocationUpdate builtins_at_instants 1700000000000 (started False) 1
                            (update_data ''alice'' (Fin 1) (Fin 2))))
     (JStr ''alice'') = Some 1700000000000 \<and>
   handleLocationUpdate builtins_at_instants (1700000000000 + 500)
     (handleLocationUpdate builtins_at_instants 1700000000000 (started False) 1
        (update_data ''alice'' (Fin 1) (Fin 2)))
     2 (update_data ''alice'' (Fin 3) (Fin 4)) =
   with_reply (handleLocationUpdate builtins_at_instants 1700000000000 (started False) 1
                 (update_data ''alice'' (Fin 1) (Fin 2)))
     2 (ErrorMsg ''RATE_LIMITED'')"
proof -
  let ?B = builtins_at_instants
  let ?dA = "update_data ''alice'' (Fin 1) (Fin 2)"
  let ?dA' = "update_data ''alice'' (Fin 3) (Fin 4)"
  note c = C8_rate_limit_while_entry_kept [of "started False" 1 ?B 1700000000000 ?dA 0 ?dA' 2
      "JStr ''alice''" JNull]
  have a1: "accepted ?B 1700000000000 (started False) ?dA" by (rule accepted_started)
  have e: "map_of (userRateLimit (handleLocationUpdate ?B 1700000000000 (started False) 1 ?dA))
             (get_field ?dA ''name'') = Some 1700000000000"
    using c [THEN conjunct2, THEN conjunct2, THEN conjunct1] a1 by (rule mp)
  have h: "accepted ?B 1700000000000 (started False) ?dA \<and> (1700000000000::int) \<noteq> 0 \<and>
           validateLocationData ?B (1700000000000 + 500) ?dA' = Valid \<and>
           get_field ?dA' ''name'' = get_field ?dA ''name'' \<and> \<not> isClosed (sockets (started False) 2)"
    using a1 by (simp add: validate_update_data)
  have r: "handleLocationUpdate ?B (1700000000000 + 500)
             (handleLocationUpdate ?B 1700000000000 (started False) 1 ?dA) 2 ?dA' =
           with_reply (handleLocationUpdate ?B 1700000000000 (started False) 1 ?dA) 2
             (ErrorMsg ''RATE_LIMITED'')"
    using c [THEN conjunct2, THEN conjunct2, THEN conjunct2, THEN conjunct2, THEN conjunct1] h
    by (rule mp)
  from a1 e r show ?thesis by simp
qed

text \<open>
  C8 as it is stated fails: alice's update is accepted, she disconnects, and her next
  update, 500 ms after the first, is accepted too, since the disconnect has deleted her
  entry of the rate-limit map.
\<close>

theorem C8_reconnect_counterexample:
  "(let s1 = handleMessage builtins_at_instants 1700000000000 (started False) 1
               (message_of ''location_update'' (update_data ''alice'' (Fin 1) (Fin 2)));
        s2 = handleMessage builtins_at_instants 1700000000100 s1 1
               (message_of ''user_disconnect'' (JObj [(''name'', JStr ''alice'')]));
        s3 = handleMessage builtins_at_instants 1700000000500 s2 2
               (message_of ''location_update'' (update_data ''alice'' (Fin 3) (Fin 4)))
    in accepted builtins_at_instants 1700000000000 (started False) (update_data ''alice'' (Fin 1) (Fin 2)) \<and>
       userRateLimit s1 = [(JStr ''alice'', 1700000000000)] \<and>
       userRateLimit s2 = [] \<and>
       accepted builtins_at_instants 1700000000500 s2 (update_data ''alice'' (Fin 3) (Fin 4)) \<and>
       userRateLimit s3 = [(JStr ''alice'', 1700000000500)] \<and>
       outbox (sockets s3 2) = [] \<and>
       (1700000000500::int) - 1700000000000 < 2000)"
proof -
  let ?B = builtins_at_instants
  let ?dA = "update_data ''alice'' (Fin 1) (Fin 2)"
  let ?dA' = "update_data ''alice'' (Fin 3) (Fin 4)"
  define s1 where "s1 = handleLocationUpdate ?B 1700000000000 (started False) 1 ?dA"
  define s2 where "s2 = handleUserDisconnectRequest s1 1 (JObj [(''name'', JStr ''alice'')])"
  define s3 where "s3 = handleLocationUpdate ?B 1700000000500 s2 2 ?dA'"
  have a1: "accepted ?B 1700000000000 (started False) ?dA" by (rule accepted_started)
  have r1: "userRateLimit s1 = [(JStr ''alice'', 1700000000000)]"
    and u1: "users s1 = [(JStr ''alice'', userData ?B 1700000000000 ?dA)]"
    and c1: "connections s1 = [(JStr ''alice'', 1)]"
    and n1: "username (sockets s1 1) = JStr ''alice''"
    and o1: "outbox (sockets s1 2) = []" "isClosed (sockets s1 2) = False"
    unfolding s1_def by (simp_all add: accepted_fields [OF a1])
  have se: "strict_equals (username (sockets s1 1)) (JStr ''alice'')"
    unfolding n1 by (simp add: strict_equals_def)
  have own: "truthy (JStr ''alice'')" "strict_equals (username (sockets s1 1)) (JStr ''alice'')"
    "map_of (users s1) (JStr ''alice'') = Some (userData ?B 1700000000000 ?dA)"
    "truthy (userData ?B 1700000000000 ?dA)"
    using se by (simp_all add: u1 userData_def)
  have r2: "userRateLimit s2 = []" and u2: "users s2 = []" and c2: "connections s2 = []"
    and o2: "outbox (sockets s2 2) = []" "isClosed (sockets s2 2) = False"
    unfolding s2_def disconnect_own [OF own] by (simp_all add: r1 u1 c1 o1)
  have a2: "accepted ?B 1700000000500 s2 ?dA'"
    by (simp add: accepted_def validate_update_data isRateLimited_iff r2 u2 maxUsers_def)
  have r3: "userRateLimit s3 = [(JStr ''alice'', 1700000000500)]"
    and o3: "outbox (sockets s3 2) = []"
    unfolding s3_def by (simp_all add: accepted_fields [OF a2] r2 c2 o2)
  show ?thesis
    unfolding Let_def handleMessage_update handleMessage_disconnect [OF own(1)]
    using a1 r1 r2 a2 r3 o3 by (simp add: s1_def s2_def s3_def)
qed

text \<open>
  C9. On an open connection, an update that fails validation with a code, an update that
  is rate limited, an update of a new username when the users map is full, and a
  disconnect request for a name that is not the connection's own each leave the server as
  it was but for one message on the connection: the error with the code. The users, the
  connections, the rate limits, the store and the usernames of the connections are those
  of before.
\<close>

theorem C9_rejection_changes_nothing:
  assumes "\<not> isClosed (sockets s ws)"
  shows
  "(validateLocationData B now d = Invalid code \<longrightarrow>
      handleLocationUpdate B now s ws d = with_reply s ws (ErrorMsg code)) \<and>
   (validateLocationData B now d = Valid \<and> isRateLimited s now (get_field d ''name'') \<longrightarrow>
      handleLocationUpdate B now s ws d = with_reply s ws (ErrorMsg ''RATE_LIMITED'')) \<and>
   (validateLocationData B now d = Valid \<and> \<not> isRateLimited s now (get_field d ''name'') \<and>
    map_of (users s) (get_field d ''name'') = None \<and> length (users s) \<ge> maxUsers \<longrightarrow>
      handleLocationUpdate B now s ws d = with_reply s ws (ErrorMsg ''USER_LIMIT_EXCEEDED'')) \<and>
   (truthy (get_field d ''name'') \<and> \<not> strict_equals (username (sockets s ws)) (get_field d ''name'') \<longrightarrow>
      handleUserDisconnectRequest s ws d = with_reply s ws (ErrorMsg ''UNAUTHORIZED_DISCONNECT'')) \<and>
   users (with_reply s ws (ErrorMsg code)) = users s \<and>
   connections (with_reply s ws (ErrorMsg code)) = connections s \<and>
   userRateLimit (with_reply s ws (ErrorMsg code)) = userRateLimit s \<and>
   redis (with_reply s ws (ErrorMsg code)) = redis s \<and>
   (\<forall>w. username (sockets (with_reply s ws (ErrorMsg code)) w) = username (sockets s w)) \<and>
   outbox (sockets (with_reply s ws (ErrorMsg code)) ws) = outbox (sockets s ws) @ [ErrorMsg code]"
  using assms
  by (simp add: handleLocationUpdate_def handleUserDisconnectRequest_def sendError_open)

theorem C9_rejection_changes_nothing_witness:
  "\<not> isClosed (sockets (started False) 1) \<and>
   validateLocationData builtins_at_instants 1700000000000 (update_data ''alice'' (Fin 91) (Fin 2)) =
     Invalid ''INVALID_LOCATION'' \<and>
   handleLocationUpdate builtins_at_instants 1700000000000 (started False) 1
     (update_data ''alice'' (Fin 91) (Fin 2)) =
     with_reply (started False) 1 (ErrorMsg ''INVALID_LOCATION'') \<and>
   \<not> isClosed (sockets (handleLocationUpdate builtins_at_instants 1700000000000 (started False) 1
                          (update_data ''alice'' (Fin 1) (Fin 2))) 1) \<and>
   validateLocationData builtins_at_instants 1700000000500 (update_data ''alice'' (Fin 1) (Fin 2)) = Valid \<and>
   isRateLimited (handleLocationUpdate builtins_at_instants 1700000000000 (started False) 1
                    (update_data ''alice'' (Fin 1) (Fin 2)))
     1700000000500 (get_field (update_data ''alice'' (Fin 1) (Fin 2)) ''name'') \<and>
   handleLocationUpdate builtins_at_instants 1700000000500
     (handleLocationUpdate builtins_at_instants 1700000000000 (started False) 1
        (update_data ''alice'' (Fin 1) (Fin 2)))
     1 (update_data ''alice'' (Fin 1) (Fin 2)) =
     with_reply (handleLocationUpdate builtins_at_instants 1700000000000 (started False) 1
                   (update_data ''alice'' (Fin 1) (Fin 2)))
       1 (ErrorMsg ''RATE_LIMITED'') \<and>
   \<not> isClosed (sockets ((started False)\<lparr>users := crowd 100\<rparr>) 1) \<and>
   \<not> isRateLimited ((started False)\<lparr>users := crowd 100\<rparr>) 1700000000000
       (get_field (update_data ''alice'' (Fin 1) (Fin 2)) ''name'') \<and>
   map_of (users ((started False)\<lparr>users := crowd 100\<rparr>))
     (get_field (update_data ''alice'' (Fin 1) (Fin 2)) ''name'') = None \<and>
   length (users ((started False)\<lparr>users := crowd 100\<rparr>)) \<ge> maxUsers \<and>
   handleLocationUpdate builtins_at_instants 1700000000000 ((started False)\<lparr>users := crowd 100\<rparr>) 1
     (update_data ''alice'' (Fin 1) (Fin 2)) =
     with_reply ((started False)\<lparr>users := crowd 100\<rparr>) 1 (ErrorMsg ''USER_LIMIT_EXCEEDED'') \<and>
   truthy (get_field (JObj [(''name'', JStr ''alice'')]) ''name'') \<and>
   \<not> strict_equals (username (sockets (started False) 1)) (get_field (JObj [(''name'', JStr ''alice'')]) ''name'') \<and>
   handleUserDisconnectRequest (started False) 1 (JObj [(''name'', JStr ''alice'')]) =
     with_reply (started False) 1 (ErrorMsg ''UNAUTHORIZED_DISCONNECT'')"
proof -
  let ?B = builtins_at_instants
  let ?dA = "update_data ''alice'' (Fin 1) (Fin 2)"
  let ?d91 = "update_data ''alice'' (Fin 91) (Fin 2)"
  let ?s1 = "handleLocationUpdate ?B 1700000000000 (started False) 1 ?dA"
  let ?sc = "(started False)\<lparr>users := crowd 100\<rparr>"
  have o0: "\<not> isClosed (sockets (started False) 1)" by simp
  have v91: "validateLocationData ?B 1700000000000 ?d91 = Invalid ''INVALID_LOCATION''"
    by (simp add: validateLocationData_def latitude_rejected_def maxNameLength_def)
  have a1: "accepted ?B 1700000000000 (started False) ?dA" by (rule accepted_started)
  have o1: "\<not> isClosed (sockets ?s1 1)"
    by (simp add: accepted_fields [OF a1])
  have v: "validateLocationData ?B now ?dA = Valid" for now
    by (simp add: validate_update_data)
  have rl: "isRateLimited ?s1 1700000000500 (get_field ?dA ''name'')"
    by (simp add: isRateLimited_iff accepted_fields [OF a1])
  have oc: "\<not> isClosed (sockets ?sc 1)" by simp
  have nrl: "\<not> isRateLimited ?sc 1700000000000 (get_field ?dA ''name'')"
    by (simp add: isRateLimited_iff)
  have full: "map_of (users ?sc) (get_field ?dA ''name'') = None" "length (users ?sc) \<ge> maxUsers"
    by (simp_all add: maxUsers_def)
  have t: "truthy (get_field (JObj [(''name'', JStr ''alice'')]) ''name'')"
    "\<not> strict_equals (username (sockets (started False) 1)) (get_field (JObj [(''name'', JStr ''alice'')]) ''name'')"
    by (simp_all add: strict_equals_def)
  note c1 = C9_rejection_changes_nothing [OF o0, of ?B 1700000000000 ?d91 "''INVALID_LOCATION''"]
  note c2 = C9_rejection_changes_nothing [OF o1, of ?B 1700000000500 ?dA "''RATE_LIMITED''"]
  note c3 = C9_rejection_changes_nothing [OF oc, of ?B 1700000000000 ?dA "''USER_LIMIT_EXCEEDED''"]
  note c4 = C9_rejection_changes_nothing [OF o0, of ?B 1700000000000 "JObj [(''name'', JStr ''alice'')]"
      "''UNAUTHORIZED_DISCONNECT''"]
  have i1: "handleLocationUpdate ?B 1700000000000 (started False) 1 ?d91 =
              with_reply (started False) 1 (ErrorMsg ''INVALID_LOCATION'')"
    using c1 [THEN conjunct1] v91 by (rule mp)
  have i2: "handleLocationUpdate ?B 1700000000500 ?s1 1 ?dA = with_reply ?s1 1 (ErrorMsg ''RATE_LIMITED'')"
    using c2 [THEN conjunct2, THEN conjunct1] conjI [OF v rl] by (rule mp)
  have i3: "handleLocationUpdate ?B 1700000000000 ?sc 1 ?dA = with_reply ?sc 1 (ErrorMsg ''USER_LIMIT_EXCEEDED'')"
    using c3 [THEN conjunct2, THEN conjunct2, THEN conjunct1]
      conjI [OF v conjI [OF nrl conjI [OF full]]] by (rule mp)
  have i4: "handleUserDisconnectRequest (started False) 1 (JObj [(''name'', JStr ''alice'')]) =
              with_reply (started False) 1 (ErrorMsg ''UNAUTHORIZED_DISCONNECT'')"
    using c4 [THEN conjunct2, THEN conjunct2, THEN conjunct2, THEN conjunct1] conjI [OF t] by (rule mp)
  show ?thesis
    using o0 v91 i1 o1 v rl i2 oc nrl full i3 t i4 by (intro conjI)
qed



end
